theory Spec2Isabelle
  imports Complex_Main "HOL-Library.Log_Nat" "HOL-Library.Multiset"
begin

section \<open>JavaScript numbers\<close>

text \<open>
  Every \<^verbatim>\<open>number\<close> of the program is an IEEE 754 binary64 value. A finite value is
  kept as the rational it denotes; the two zeros are one value \<open>Fin 0\<close>, because
  the program only adds, subtracts, multiplies, divides by the positive constant
  \<^verbatim>\<open>millisPerDay\<close> and converts to text, and none of these tells \<open>+0\<close> from \<open>-0\<close>.
  All NaNs are the one value \<open>NaN\<close>. Equality of the model is therefore
  "same value, up to the sign of zero".
\<close>

datatype number = NaN | PInf | NInf | Fin rat

text \<open>Round to the nearest integer, ties to the even one.\<close>

definition roundHalfEven :: "rat \<Rightarrow> int" where
  "roundHalfEven x =
     (let f = \<lfloor>x\<rfloor>; r = x - of_int f
      in if r < 1 / 2 then f
         else if 1 / 2 < r then f + 1
         else if even f then f else f + 1)"

text \<open>For \<open>0 < q\<close>, the integer \<open>k\<close> with \<open>2 powi k \<le> q < 2 powi (k + 1)\<close>.\<close>

definition floorLog2 :: "rat \<Rightarrow> int" where
  "floorLog2 q = (if 1 \<le> q then bitlen \<lfloor>q\<rfloor> - 1 else - bitlen (\<lceil>1 / q\<rceil> - 1))"

text \<open>
  The binary64 value nearest to a positive rational: 53 significant bits, the
  exponent of the last bit no smaller than \<open>-1074\<close> (below that the values are
  subnormal), and \<open>None\<close> when the result would reach \<open>2 powi 1024\<close> (overflow).
\<close>

definition roundMagnitude :: "rat \<Rightarrow> rat option" where
  "roundMagnitude q =
     (let e = max (floorLog2 q - 52) (- 1074);
          r = of_int (roundHalfEven (q / 2 powi e)) * 2 powi e
      in if 2 powi 1024 \<le> r then None else Some r)"

definition roundDouble :: "rat \<Rightarrow> number" where
  "roundDouble q =
     (if q = 0 then Fin 0
      else if 0 < q then (case roundMagnitude q of None \<Rightarrow> PInf | Some r \<Rightarrow> Fin r)
      else (case roundMagnitude (- q) of None \<Rightarrow> NInf | Some r \<Rightarrow> Fin (- r)))"

text \<open>A value of the model is a binary64 value when rounding leaves it as it is.\<close>

fun is_double :: "number \<Rightarrow> bool" where
  "is_double (Fin q) = (roundDouble q = Fin q)"
| "is_double x = True"

fun num_neg :: "number \<Rightarrow> number" where
  "num_neg NaN = NaN"
| "num_neg PInf = NInf"
| "num_neg NInf = PInf"
| "num_neg (Fin q) = Fin (- q)"

fun num_add :: "number \<Rightarrow> number \<Rightarrow> number" where
  "num_add (Fin a) (Fin b) = roundDouble (a + b)"
| "num_add NaN y = NaN"
| "num_add x NaN = NaN"
| "num_add PInf NInf = NaN"
| "num_add NInf PInf = NaN"
| "num_add PInf y = PInf"
| "num_add NInf y = NInf"
| "num_add x PInf = PInf"
| "num_add x NInf = NInf"

definition num_sub :: "number \<Rightarrow> number \<Rightarrow> number" where
  "num_sub x y = num_add x (num_neg y)"

fun num_mul :: "number \<Rightarrow> number \<Rightarrow> number" where
  "num_mul (Fin a) (Fin b) = roundDouble (a * b)"
| "num_mul NaN y = NaN"
| "num_mul x NaN = NaN"
| "num_mul PInf PInf = PInf"
| "num_mul PInf NInf = NInf"
| "num_mul NInf PInf = NInf"
| "num_mul NInf NInf = PInf"
| "num_mul PInf (Fin b) = (if b = 0 then NaN else if 0 < b then PInf else NInf)"
| "num_mul NInf (Fin b) = (if b = 0 then NaN else if 0 < b then NInf else PInf)"
| "num_mul (Fin a) PInf = (if a = 0 then NaN else if 0 < a then PInf else NInf)"
| "num_mul (Fin a) NInf = (if a = 0 then NaN else if 0 < a then NInf else PInf)"

text \<open>
  The program divides by \<^verbatim>\<open>millisPerDay\<close> only, so the divisor \<open>c\<close> is a positive
  rational constant. Division by zero, whose result depends on the sign of the
  zero, does not arise.
\<close>

fun num_div_pos :: "number \<Rightarrow> rat \<Rightarrow> number" where
  "num_div_pos (Fin a) c = roundDouble (a / c)"
| "num_div_pos x c = x"

section \<open>Dates and the platform's formatting\<close>

text \<open>
  A \<^verbatim>\<open>Date\<close> object holds a time value: a whole number of milliseconds since the
  epoch, or NaN (an "Invalid Date", as \<^verbatim>\<open>new Date('x')\<close> gives). The whole numbers
  JavaScript admits are at most 8,640,000,000,000,000 in magnitude, which is less
  than \<open>2\<^sup>5\<^sup>3\<close>; each of them is a binary64 value.
\<close>

datatype Date = InvalidDate | ValidDate int

fun getTime :: "Date \<Rightarrow> number" where
  "getTime InvalidDate = NaN"
| "getTime (ValidDate t) = Fin (of_int t)"

text \<open>
  What the code takes from the JavaScript runtime and the locale:
  \<^verbatim>\<open>date.toLocaleDateString()\<close>, \<^verbatim>\<open>date.toLocaleDateString('en-US', options)\<close>
  with the one \<^verbatim>\<open>options\<close> object the code passes, and the conversion of a
  number to text inside a template literal.
\<close>

record platform =
  toLocaleDateString :: "Date \<Rightarrow> string"
  toLocaleDateString_enUS :: "Date \<Rightarrow> string"
  numberToString :: "number \<Rightarrow> string"

section \<open>Products\<close>

record Flight =
  flightNumber :: string
  origin :: string
  destination :: string
  departureTime :: Date
  price :: number

record Hotel =
  id' :: string
  checkInDate :: Date
  checkOutDate :: Date
  roomRate :: number

record Car =
  vehicleType :: string
  pickupDate :: Date
  dropOffDate :: Date
  dailyRate :: number

record Activity =
  id' :: string
  startTime :: Date
  cost :: number

text \<open>
  An instance of one of the four classes. The type
  \<^verbatim>\<open>Product = Flight | Hotel | Car | Activity\<close> of the source is wider: the
  classes have public fields only, so an object written out with the fields of a
  flight has that type too, without being an instance of \<^verbatim>\<open>Flight\<close>.
\<close>

datatype Product = AFlight Flight | AHotel Hotel | ACar Car | AnActivity Activity

text \<open>
  The type annotation is erased when the program runs: each free function tests
  its argument with \<^verbatim>\<open>instanceof\<close>, and an argument that is an instance of none of
  the four classes, whatever its type, is \<open>NotAProduct\<close>.
\<close>

datatype jsvalue = OfProduct Product | NotAProduct

section \<open>Helper functions\<close>

text \<open>The three products of \<^verbatim>\<open>24 * 60 * 60 * 1000\<close> are small whole numbers: exact.\<close>

definition millisPerDay :: rat where
  "millisPerDay = 24 * 60 * 60 * 1000"

definition numDays :: "Date \<Rightarrow> Date \<Rightarrow> number" where
  "numDays startDate endDate =
     (let millis = num_sub (getTime endDate) (getTime startDate)
      in num_div_pos millis millisPerDay)"

definition formatDate :: "platform \<Rightarrow> Date \<Rightarrow> string" where
  "formatDate pf date = toLocaleDateString pf date"

definition formatDateTime :: "platform \<Rightarrow> Date \<Rightarrow> string" where
  "formatDateTime pf date = toLocaleDateString_enUS pf date"

section \<open>Dispatch by type switch\<close>

text \<open>
  Both functions are a chain of \<^verbatim>\<open>if (product instanceof ...)\<close> with no final
  \<^verbatim>\<open>else\<close>: past the last test the function ends without a \<^verbatim>\<open>return\<close>, and the
  caller gets \<^verbatim>\<open>undefined\<close>, which is \<open>None\<close> here. The source has no
  \<^verbatim>\<open>throw\<close>, so there is no other outcome.
\<close>

fun calculatePrice :: "jsvalue \<Rightarrow> number option" where
  "calculatePrice (OfProduct (AFlight product)) = Some (Flight.price product)"
| "calculatePrice (OfProduct (AHotel product)) =
     Some (num_mul (numDays (checkInDate product) (checkOutDate product)) (roomRate product))"
| "calculatePrice (OfProduct (ACar product)) =
     Some (num_mul (numDays (pickupDate product) (dropOffDate product)) (dailyRate product))"
| "calculatePrice (OfProduct (AnActivity product)) = Some (cost product)"
| "calculatePrice NotAProduct = None"

fun getItinerary :: "platform \<Rightarrow> jsvalue \<Rightarrow> string option" where
  "getItinerary pf (OfProduct (AFlight product)) = Some (
     ''Flight\<newline>'' @
     ''------\<newline>'' @
     (flightNumber product @ '': '' @ origin product @ ''-'' @ destination product @ ''\<newline>'') @
     (''Dep: '' @ formatDateTime pf (departureTime product) @ ''\<newline>'') @
     (''Price: $'' @ numberToString pf (Flight.price product)))"
| "getItinerary pf (OfProduct (AHotel product)) = Some (
     ''Hotel\<newline>'' @
     ''-----\<newline>'' @
     (Hotel.id' product @ ''\<newline>'') @
     (''Check in:  '' @ formatDate pf (checkInDate product) @ ''\<newline>'') @
     (''Check out: '' @ formatDate pf (checkOutDate product) @ ''\<newline>'') @
     (''Room rate: $'' @ numberToString pf (roomRate product) @ ''/night''))"
| "getItinerary pf (OfProduct (ACar product)) = Some (
     ''Car\<newline>'' @
     ''---\<newline>'' @
     (''Vehicle type:'' @ vehicleType product @ ''\<newline>'') @
     (''Pick up:  '' @ formatDate pf (pickupDate product) @ ''\<newline>'') @
     (''Drop off: '' @ formatDate pf (dropOffDate product) @ ''\<newline>'') @
     (''Daily rate: $'' @ numberToString pf (dailyRate product)))"
| "getItinerary pf (OfProduct (AnActivity product)) = Some (
     ''Activity\<newline>'' @
     ''--------\<newline>'' @
     (Activity.id' product @ ''\<newline>'') @
     (formatDateTime pf (startTime product) @ ''\<newline>'') @
     (''Cost: $'' @ numberToString pf (cost product)))"
| "getItinerary pf NotAProduct = None"

text \<open>
  What \<^verbatim>\<open>+\<close> does with the result of such a call: \<^verbatim>\<open>n + undefined\<close> is NaN, and
  \<^verbatim>\<open>s + undefined\<close> appends the text \<^verbatim>\<open>undefined\<close>.
\<close>

fun plus_number :: "number \<Rightarrow> number option \<Rightarrow> number" where
  "plus_number accumulator (Some n) = num_add accumulator n"
| "plus_number accumulator None = NaN"

fun plus_string :: "string \<Rightarrow> string option \<Rightarrow> string" where
  "plus_string accumulator (Some s) = accumulator @ s"
| "plus_string accumulator None = accumulator @ ''undefined''"

section \<open>VacationPackage\<close>

text \<open>
  The class is the same in both files but for its two reading methods, so one
  record and one \<open>add\<close> serve both; \<^verbatim>\<open>products: Array<Product> = []\<close> is the
  state of a new package. The products of the record are instances of the four
  classes.
\<close>

record VacationPackage =
  products :: "Product list"

definition new_VacationPackage :: VacationPackage where
  "new_VacationPackage = \<lparr>products = []\<rparr>"

definition add :: "Product \<Rightarrow> VacationPackage \<Rightarrow> VacationPackage" where
  "add product this = this\<lparr>products := products this @ [product]\<rparr>"

text \<open>\<^verbatim>\<open>reduce\<close> with an initial value is a fold from the left.\<close>

definition VacationPackage_calculatePrice :: "VacationPackage \<Rightarrow> number" where
  "VacationPackage_calculatePrice this =
     foldl (\<lambda>accumulator product. plus_number accumulator (calculatePrice (OfProduct product)))
       (Fin 0) (products this)"

definition VacationPackage_getItinerary :: "platform \<Rightarrow> VacationPackage \<Rightarrow> string" where
  "VacationPackage_getItinerary pf this =
     foldl (\<lambda>accumulator product.
              plus_string (accumulator @ ''\<newline>\<newline>'') (getItinerary pf (OfProduct product)))
       ''Itinerary\<newline>========='' (products this)"

section \<open>Dispatch by visitor\<close>

text \<open>
  \<^verbatim>\<open>interface ProductVisitor\<close>: four methods, each of which may change the visitor
  object it belongs to; \<open>'s\<close> is the state of that object.
\<close>

record 's ProductVisitor =
  visitFlight :: "Flight \<Rightarrow> 's \<Rightarrow> 's"
  visitHotel :: "Hotel \<Rightarrow> 's \<Rightarrow> 's"
  visitCar :: "Car \<Rightarrow> 's \<Rightarrow> 's"
  visitActivity :: "Activity \<Rightarrow> 's \<Rightarrow> 's"

record PricingVisitor =
  price :: number

definition new_PricingVisitor :: PricingVisitor where
  "new_PricingVisitor = \<lparr>price = Fin 0\<rparr>"

definition PricingVisitor_visitFlight :: "Flight \<Rightarrow> PricingVisitor \<Rightarrow> PricingVisitor" where
  "PricingVisitor_visitFlight flight this =
     this\<lparr>PricingVisitor.price := num_add (PricingVisitor.price this) (Flight.price flight)\<rparr>"

definition PricingVisitor_visitHotel :: "Hotel \<Rightarrow> PricingVisitor \<Rightarrow> PricingVisitor" where
  "PricingVisitor_visitHotel hotel this =
     this\<lparr>PricingVisitor.price := num_add (PricingVisitor.price this)
       (num_mul (numDays (checkInDate hotel) (checkOutDate hotel)) (roomRate hotel))\<rparr>"

definition PricingVisitor_visitCar :: "Car \<Rightarrow> PricingVisitor \<Rightarrow> PricingVisitor" where
  "PricingVisitor_visitCar car this =
     this\<lparr>PricingVisitor.price := num_add (PricingVisitor.price this)
       (num_mul (numDays (pickupDate car) (dropOffDate car)) (dailyRate car))\<rparr>"

definition PricingVisitor_visitActivity :: "Activity \<Rightarrow> PricingVisitor \<Rightarrow> PricingVisitor" where
  "PricingVisitor_visitActivity activity this =
     this\<lparr>PricingVisitor.price := num_add (PricingVisitor.price this) (cost activity)\<rparr>"

definition pricingVisitor :: "PricingVisitor ProductVisitor" where
  "pricingVisitor =
     \<lparr>visitFlight = PricingVisitor_visitFlight, visitHotel = PricingVisitor_visitHotel,
      visitCar = PricingVisitor_visitCar, visitActivity = PricingVisitor_visitActivity\<rparr>"

record ItineraryVisitor =
  itinerary :: string

definition new_ItineraryVisitor :: ItineraryVisitor where
  "new_ItineraryVisitor = \<lparr>itinerary = ''Itinerary\<newline>=========''\<rparr>"

definition ItineraryVisitor_visitFlight ::
  "platform \<Rightarrow> Flight \<Rightarrow> ItineraryVisitor \<Rightarrow> ItineraryVisitor" where
  "ItineraryVisitor_visitFlight pf flight this =
     this\<lparr>itinerary := itinerary this @ (
       ''\<newline>\<newline>'' @
       ''Flight\<newline>'' @
       ''------\<newline>'' @
       (flightNumber flight @ '': '' @ origin flight @ ''-'' @ destination flight @ ''\<newline>'') @
       (''Dep: '' @ formatDateTime pf (departureTime flight) @ ''\<newline>'') @
       (''Price: $'' @ numberToString pf (Flight.price flight)))\<rparr>"

definition ItineraryVisitor_visitHotel ::
  "platform \<Rightarrow> Hotel \<Rightarrow> ItineraryVisitor \<Rightarrow> ItineraryVisitor" where
  "ItineraryVisitor_visitHotel pf hotel this =
     this\<lparr>itinerary := itinerary this @ (
       ''\<newline>\<newline>'' @
       ''Hotel\<newline>'' @
       ''-----\<newline>'' @
       (Hotel.id' hotel @ ''\<newline>'') @
       (''Check in:  '' @ formatDate pf (checkInDate hotel) @ ''\<newline>'') @
       (''Check out: '' @ formatDate pf (checkOutDate hotel) @ ''\<newline>'') @
       (''Room rate: $'' @ numberToString pf (roomRate hotel) @ ''/night''))\<rparr>"

definition ItineraryVisitor_visitCar ::
  "platform \<Rightarrow> Car \<Rightarrow> ItineraryVisitor \<Rightarrow> ItineraryVisitor" where
  "ItineraryVisitor_visitCar pf car this =
     this\<lparr>itinerary := itinerary this @ (
       ''\<newline>\<newline>'' @
       ''Car\<newline>'' @
       ''---\<newline>'' @
       (''Vehicle type:'' @ vehicleType car @ ''\<newline>'') @
       (''Pick up:  '' @ formatDate pf (pickupDate car) @ ''\<newline>'') @
       (''Drop off: '' @ formatDate pf (dropOffDate car) @ ''\<newline>'') @
       (''Daily rate: $'' @ numberToString pf (dailyRate car)))\<rparr>"

definition ItineraryVisitor_visitActivity ::
  "platform \<Rightarrow> Activity \<Rightarrow> ItineraryVisitor \<Rightarrow> ItineraryVisitor" where
  "ItineraryVisitor_visitActivity pf activity this =
     this\<lparr>itinerary := itinerary this @ (
       ''\<newline>\<newline>'' @
       ''Activity\<newline>'' @
       ''--------\<newline>'' @
       (Activity.id' activity @ ''\<newline>'') @
       (formatDateTime pf (startTime activity) @ ''\<newline>'') @
       (''Cost: $'' @ numberToString pf (cost activity)))\<rparr>"

definition itineraryVisitor :: "platform \<Rightarrow> ItineraryVisitor ProductVisitor" where
  "itineraryVisitor pf =
     \<lparr>visitFlight = ItineraryVisitor_visitFlight pf, visitHotel = ItineraryVisitor_visitHotel pf,
      visitCar = ItineraryVisitor_visitCar pf, visitActivity = ItineraryVisitor_visitActivity pf\<rparr>"

text \<open>
  \<^verbatim>\<open>accept(v)\<close> of the four classes; in this file every element of a package is an
  instance of one of them.
\<close>

fun accept :: "Product \<Rightarrow> 's ProductVisitor \<Rightarrow> 's \<Rightarrow> 's" where
  "accept (AFlight this) v = visitFlight v this"
| "accept (AHotel this) v = visitHotel v this"
| "accept (ACar this) v = visitCar v this"
| "accept (AnActivity this) v = visitActivity v this"

text \<open>\<^verbatim>\<open>forEach\<close> runs the callback on each element in order, on the one visitor object.\<close>

definition VacationPackage_calculatePrice_visitor :: "VacationPackage \<Rightarrow> number" where
  "VacationPackage_calculatePrice_visitor this =
     PricingVisitor.price
       (fold (\<lambda>product. accept product pricingVisitor) (products this) new_PricingVisitor)"

definition VacationPackage_getItinerary_visitor :: "platform \<Rightarrow> VacationPackage \<Rightarrow> string" where
  "VacationPackage_getItinerary_visitor pf this =
     itinerary
       (fold (\<lambda>product. accept product (itineraryVisitor pf)) (products this) new_ItineraryVisitor)"

section \<open>The sample package\<close>

text \<open>
  \<^verbatim>\<open>new Date('2019-12-30')\<close> and \<^verbatim>\<open>new Date('2020-01-01')\<close> are midnight UTC of
  day 18260 and day 18262 after the epoch.
\<close>

definition startDate :: Date where
  "startDate = ValidDate 1577664000000"

definition endDate :: Date where
  "endDate = ValidDate 1577836800000"

definition pkg :: VacationPackage where
  "pkg =
     (let pkg = new_VacationPackage;
          pkg = add (AFlight \<lparr>flightNumber = ''TV 312'', origin = ''BOS'', destination = ''JFK'',
                      departureTime = startDate, price = Fin 300\<rparr>) pkg;
          pkg = add (AFlight \<lparr>flightNumber = ''TV 313'', origin = ''JFK'', destination = ''BOS'',
                      departureTime = endDate, price = Fin 300\<rparr>) pkg;
          pkg = add (AHotel \<lparr>Hotel.id' = ''Hilton Times Square'', checkInDate = startDate,
                      checkOutDate = endDate, roomRate = Fin 400\<rparr>) pkg;
          pkg = add (ACar \<lparr>vehicleType = ''SUV'', pickupDate = startDate,
                      dropOffDate = endDate, dailyRate = Fin 150\<rparr>) pkg;
          pkg = add (AnActivity \<lparr>id' = ''Hamilton'', startTime = startDate,
                      cost = Fin 200\<rparr>) pkg
      in pkg)"

section \<open>Auxiliary notions for the statements\<close>

text \<open>
  The text that string concatenation makes of the result of
  \<^verbatim>\<open>getItinerary(product)\<close>: the block of the product.
\<close>

definition itineraryBlock :: "platform \<Rightarrow> Product \<Rightarrow> string" where
  "itineraryBlock pf product = plus_string [] (getItinerary pf (OfProduct product))"

text \<open>
  The result of \<^verbatim>\<open>calculatePrice(product)\<close> as a number (\<^verbatim>\<open>undefined\<close> converts
  to NaN): the price of the product.
\<close>

definition productPrice :: "Product \<Rightarrow> number" where
  "productPrice product =
     (case calculatePrice (OfProduct product) of Some n \<Rightarrow> n | None \<Rightarrow> NaN)"

text \<open>Every number held by a product is a binary64 value.\<close>

fun numbers_ok :: "Product \<Rightarrow> bool" where
  "numbers_ok (AFlight f) = is_double (Flight.price f)"
| "numbers_ok (AHotel h) = is_double (roomRate h)"
| "numbers_ok (ACar c) = is_double (dailyRate c)"
| "numbers_ok (AnActivity a) = is_double (cost a)"

text \<open>
  Two flights, one priced \<open>10\<^sup>1\<^sup>6\<close> and one priced 1, and two packages that hold
  the first once and the second twice, in different orders.
\<close>

definition dearFlight :: Product where
  "dearFlight = AFlight \<lparr>flightNumber = ''TV 1'', origin = ''BOS'', destination = ''JFK'',
     departureTime = startDate, price = Fin 10000000000000000\<rparr>"

definition cheapFlight :: Product where
  "cheapFlight = AFlight \<lparr>flightNumber = ''TV 2'', origin = ''JFK'', destination = ''BOS'',
     departureTime = endDate, price = Fin 1\<rparr>"

definition dearFirst :: VacationPackage where
  "dearFirst =
     (let pkg = new_VacationPackage;
          pkg = add dearFlight pkg;
          pkg = add cheapFlight pkg;
          pkg = add cheapFlight pkg
      in pkg)"

definition dearLast :: VacationPackage where
  "dearLast =
     (let pkg = new_VacationPackage;
          pkg = add cheapFlight pkg;
          pkg = add cheapFlight pkg;
          pkg = add dearFlight pkg
      in pkg)"

section \<open>Objects and references\<close>

text \<open>
  The products, the array of a package, the package itself and the visitors are
  objects, and the program holds references to them. A heap is the list of the
  objects made so far and a reference is a position in it. A piece of program
  takes the heap and gives its result together with the heap as it leaves it, or
  nothing when it stops with a \<^verbatim>\<open>TypeError\<close>.
\<close>

type_synonym ref = nat

datatype object =
    FlightObject Flight
  | HotelObject Hotel
  | CarObject Car
  | ActivityObject Activity
  | ArrayObject "ref list"
  | VacationPackageObject ref
  | PricingVisitorObject PricingVisitor
  | ItineraryVisitorObject ItineraryVisitor

type_synonym heap = "object list"

type_synonym 'a prog = "heap \<Rightarrow> ('a \<times> heap) option"

definition ret :: "'a \<Rightarrow> 'a prog" where
  "ret x h = Some (x, h)"

definition throw :: "'a prog" where
  "throw h = None"

definition bnd :: "'a prog \<Rightarrow> ('a \<Rightarrow> 'b prog) \<Rightarrow> 'b prog" where
  "bnd m f h = (case m h of None \<Rightarrow> None | Some (x, h') \<Rightarrow> f x h')"

text \<open>Reading an object, writing an object in place, and \<^verbatim>\<open>new\<close>.\<close>

definition cell :: "heap \<Rightarrow> ref \<Rightarrow> object option" where
  "cell h r = (if r < length h then Some (h ! r) else None)"

definition load :: "ref \<Rightarrow> object prog" where
  "load r h = (case cell h r of None \<Rightarrow> None | Some obj \<Rightarrow> Some (obj, h))"

definition store :: "ref \<Rightarrow> object \<Rightarrow> unit prog" where
  "store r obj h = (if r < length h then Some ((), h[r := obj]) else None)"

definition new :: "object \<Rightarrow> ref prog" where
  "new obj h = Some (length h, h @ [obj])"

text \<open>
  \<^verbatim>\<open>instanceof\<close> and the call of \<^verbatim>\<open>accept\<close> look at the class of the object: the
  instances of the four classes are the products.
\<close>

fun as_product :: "object \<Rightarrow> Product option" where
  "as_product (FlightObject f) = Some (AFlight f)"
| "as_product (HotelObject h) = Some (AHotel h)"
| "as_product (CarObject c) = Some (ACar c)"
| "as_product (ActivityObject a) = Some (AnActivity a)"
| "as_product obj = None"

definition as_jsvalue :: "object \<Rightarrow> jsvalue" where
  "as_jsvalue obj = (case as_product obj of Some p \<Rightarrow> OfProduct p | None \<Rightarrow> NotAProduct)"

text \<open>
  \<^verbatim>\<open>this.products\<close>, and the array operations the program uses. \<^verbatim>\<open>reduce\<close> and
  \<^verbatim>\<open>forEach\<close> read the length once and then, for each index in turn, the element
  that the array holds at that moment; \<^verbatim>\<open>forEach\<close> is the same loop with nothing
  carried from one element to the next.
\<close>

definition get_products :: "ref \<Rightarrow> ref prog" where
  "get_products this =
     bnd (load this) (\<lambda>obj. case obj of VacationPackageObject array \<Rightarrow> ret array | _ \<Rightarrow> throw)"

definition array_length :: "ref \<Rightarrow> nat prog" where
  "array_length array =
     bnd (load array) (\<lambda>obj. case obj of ArrayObject xs \<Rightarrow> ret (length xs) | _ \<Rightarrow> throw)"

definition element :: "ref \<Rightarrow> nat \<Rightarrow> ref option prog" where
  "element array k =
     bnd (load array) (\<lambda>obj. case obj of
        ArrayObject xs \<Rightarrow> ret (if k < length xs then Some (xs ! k) else None)
      | _ \<Rightarrow> throw)"

definition push :: "ref \<Rightarrow> ref \<Rightarrow> unit prog" where
  "push array x =
     bnd (load array) (\<lambda>obj. case obj of
        ArrayObject xs \<Rightarrow> store array (ArrayObject (xs @ [x]))
      | _ \<Rightarrow> throw)"

primrec steps :: "nat list \<Rightarrow> (nat \<Rightarrow> 's \<Rightarrow> 's prog) \<Rightarrow> 's \<Rightarrow> 's prog" where
  "steps [] body s = ret s"
| "steps (k # ks) body s = bnd (body k s) (steps ks body)"

definition reduce :: "ref \<Rightarrow> ('s \<Rightarrow> ref \<Rightarrow> 's prog) \<Rightarrow> 's \<Rightarrow> 's prog" where
  "reduce array callback initialValue =
     bnd (array_length array) (\<lambda>len.
       steps [0..<len]
         (\<lambda>k accumulator. bnd (element array k) (\<lambda>x. case x of
            Some v \<Rightarrow> callback accumulator v
          | None \<Rightarrow> ret accumulator))
         initialValue)"

definition forEach :: "ref \<Rightarrow> (ref \<Rightarrow> unit prog) \<Rightarrow> unit prog" where
  "forEach array callback = reduce array (\<lambda>u v. callback v) ()"

text \<open>The methods of \<^verbatim>\<open>VacationPackage\<close> and the two free functions of the type switch.\<close>

definition add_heap :: "ref \<Rightarrow> ref \<Rightarrow> unit prog" where
  "add_heap this product = bnd (get_products this) (\<lambda>array. push array product)"

definition calculatePrice_heap :: "ref \<Rightarrow> number option prog" where
  "calculatePrice_heap product = bnd (load product) (\<lambda>obj. ret (calculatePrice (as_jsvalue obj)))"

definition getItinerary_heap :: "platform \<Rightarrow> ref \<Rightarrow> string option prog" where
  "getItinerary_heap pf product =
     bnd (load product) (\<lambda>obj. ret (getItinerary pf (as_jsvalue obj)))"

definition VacationPackage_calculatePrice_heap :: "ref \<Rightarrow> number prog" where
  "VacationPackage_calculatePrice_heap this =
     bnd (get_products this) (\<lambda>array.
       reduce array
         (\<lambda>accumulator product.
            bnd (calculatePrice_heap product) (\<lambda>r. ret (plus_number accumulator r)))
         (Fin 0))"

definition VacationPackage_getItinerary_heap :: "platform \<Rightarrow> ref \<Rightarrow> string prog" where
  "VacationPackage_getItinerary_heap pf this =
     bnd (get_products this) (\<lambda>array.
       reduce array
         (\<lambda>accumulator product.
            bnd (getItinerary_heap pf product)
              (\<lambda>r. ret (plus_string (accumulator @ ''\<newline>\<newline>'') r)))
         ''Itinerary\<newline>========='')"

text \<open>
  The visitor file. \<^verbatim>\<open>product.accept(v)\<close> runs the method of \<open>v\<close> for the product's
  kind; a method of a visitor reads its own object, and writes it back with the
  field changed as the method says.
\<close>

definition accept_heap :: "ref \<Rightarrow> (Product \<Rightarrow> unit prog) \<Rightarrow> unit prog" where
  "accept_heap product v =
     bnd (load product) (\<lambda>obj. case as_product obj of Some p \<Rightarrow> v p | None \<Rightarrow> throw)"

definition PricingVisitor_heap :: "ref \<Rightarrow> Product \<Rightarrow> unit prog" where
  "PricingVisitor_heap this p =
     bnd (load this) (\<lambda>obj. case obj of
        PricingVisitorObject s \<Rightarrow> store this (PricingVisitorObject (accept p pricingVisitor s))
      | _ \<Rightarrow> throw)"

definition ItineraryVisitor_heap :: "platform \<Rightarrow> ref \<Rightarrow> Product \<Rightarrow> unit prog" where
  "ItineraryVisitor_heap pf this p =
     bnd (load this) (\<lambda>obj. case obj of
        ItineraryVisitorObject s \<Rightarrow>
          store this (ItineraryVisitorObject (accept p (itineraryVisitor pf) s))
      | _ \<Rightarrow> throw)"

definition VacationPackage_calculatePrice_visitor_heap :: "ref \<Rightarrow> number prog" where
  "VacationPackage_calculatePrice_visitor_heap this =
     bnd (new (PricingVisitorObject new_PricingVisitor)) (\<lambda>visitor.
     bnd (get_products this) (\<lambda>array.
     bnd (forEach array (\<lambda>product. accept_heap product (PricingVisitor_heap visitor)))
       (\<lambda>u.
     bnd (load visitor) (\<lambda>obj. case obj of
        PricingVisitorObject s \<Rightarrow> ret (PricingVisitor.price s)
      | _ \<Rightarrow> throw))))"

definition VacationPackage_getItinerary_visitor_heap :: "platform \<Rightarrow> ref \<Rightarrow> string prog" where
  "VacationPackage_getItinerary_visitor_heap pf this =
     bnd (new (ItineraryVisitorObject new_ItineraryVisitor)) (\<lambda>visitor.
     bnd (get_products this) (\<lambda>array.
     bnd (forEach array
            (\<lambda>product. accept_heap product (ItineraryVisitor_heap pf visitor)))
       (\<lambda>u.
     bnd (load visitor) (\<lambda>obj. case obj of
        ItineraryVisitorObject s \<Rightarrow> ret (itinerary s)
      | _ \<Rightarrow> throw))))"

text \<open>
  The product a reference stands for, a method called twice in a row, and a heap
  with one flight, an array holding it and a package with that array.
\<close>

definition product_at :: "heap \<Rightarrow> ref \<Rightarrow> Product option" where
  "product_at h r = (case cell h r of None \<Rightarrow> None | Some obj \<Rightarrow> as_product obj)"

definition twice :: "'a prog \<Rightarrow> ('a \<times> 'a) prog" where
  "twice m = bnd m (\<lambda>first. bnd m (\<lambda>second. ret (first, second)))"

definition sampleHeap :: heap where
  "sampleHeap =
     [FlightObject \<lparr>flightNumber = ''TV 312'', origin = ''BOS'', destination = ''JFK'',
        departureTime = startDate, price = Fin 300\<rparr>,
      ArrayObject [0],
      VacationPackageObject 1]"

section \<open>Arithmetic of the number model\<close>

subsection \<open>Negation and symmetry\<close>

lemma roundDouble_0: "roundDouble 0 = Fin 0"
  by (simp add: roundDouble_def)

lemma roundDouble_minus: "roundDouble (- q) = num_neg (roundDouble q)"
  by (cases "q = 0"; cases "0 < q") (auto simp: roundDouble_def split: option.splits)

lemma num_neg_neg: "num_neg (num_neg x) = x"
  by (cases x) auto

lemma num_add_commute: "num_add x y = num_add y x"
  by (cases x; cases y) (simp_all add: add.commute)

lemma num_add_neg: "num_add (num_neg x) (num_neg y) = num_neg (num_add x y)"
  by (cases x; cases y) (simp_all add: roundDouble_minus [symmetric])

lemma num_sub_swap: "num_sub x y = num_neg (num_sub y x)"
  unfolding num_sub_def by (simp add: num_add_neg [symmetric] num_neg_neg num_add_commute)

lemma num_div_pos_neg: "num_div_pos (num_neg x) c = num_neg (num_div_pos x c)"
  by (cases x) (simp_all add: roundDouble_minus [symmetric])

subsection \<open>The exponent of a positive rational\<close>

lemma bitlen_pos: "0 < n \<Longrightarrow> 1 \<le> bitlen n"
  using bitlen_eq_zero_iff [of n] bitlen_nonneg [of n] by linarith

lemma floorLog2_ge1:
  assumes "1 \<le> q"
  shows "2 powi floorLog2 q \<le> q \<and> q < 2 powi (floorLog2 q + 1)"
proof -
  define n where "n = \<lfloor>q\<rfloor>"
  define b where "b = bitlen n"
  have n: "0 < n" using assms unfolding n_def by linarith
  have b: "1 \<le> b" unfolding b_def using n by (rule bitlen_pos)
  from bitlen_bounds [OF n] have lo: "2 ^ nat (b - 1) \<le> n" and hi: "n < 2 ^ nat b"
    unfolding b_def by simp_all
  have fl: "floorLog2 q = b - 1"
    using assms by (simp add: floorLog2_def n_def b_def)
  have "(2::rat) powi (b - 1) = of_int (2 ^ nat (b - 1))"
    using b by (simp add: power_int_nonneg_exp)
  also have "\<dots> \<le> of_int n" using lo by (simp only: of_int_le_iff)
  also have "\<dots> \<le> q" unfolding n_def by simp
  finally have 1: "2 powi (b - 1) \<le> q" .
  have "q < of_int (n + 1)" unfolding n_def by linarith
  also have "\<dots> \<le> of_int (2 ^ nat b)"
  proof -
    have "n + 1 \<le> 2 ^ nat b" using hi by simp
    then show ?thesis by (simp only: of_int_le_iff)
  qed
  also have "\<dots> = (2::rat) powi b" using b by (simp add: power_int_nonneg_exp)
  finally have 2: "q < 2 powi b" .
  from 1 2 fl show ?thesis by simp
qed

lemma floorLog2_lt1:
  assumes "0 < q" "q < 1"
  shows "2 powi floorLog2 q \<le> q \<and> q < 2 powi (floorLog2 q + 1)"
proof -
  define x where "x = 1 / q"
  define N where "N = \<lceil>x\<rceil> - 1"
  define b where "b = bitlen N"
  have x: "1 < x" using assms unfolding x_def by simp
  have q: "q = 1 / x" unfolding x_def by simp
  have Nlo: "of_int N < x" unfolding N_def by linarith
  have Nhi: "x \<le> of_int (N + 1)" unfolding N_def by simp
  have "1 < \<lceil>x\<rceil>" using x by linarith
  then have n: "0 < N" unfolding N_def by simp
  have b: "1 \<le> b" unfolding b_def using n by (rule bitlen_pos)
  from bitlen_bounds [OF n] have lo: "2 ^ nat (b - 1) \<le> N" and hi: "N < 2 ^ nat b"
    unfolding b_def by simp_all
  have fl: "floorLog2 q = - b"
    using assms by (simp add: floorLog2_def N_def b_def x_def)
  have "x \<le> of_int (2 ^ nat b)"
  proof -
    have "N + 1 \<le> 2 ^ nat b" using hi by simp
    then have "(of_int (N + 1) :: rat) \<le> of_int (2 ^ nat b)" by (simp only: of_int_le_iff)
    with Nhi show ?thesis by linarith
  qed
  then have xb: "x \<le> 2 powi b" using b by (simp add: power_int_nonneg_exp)
  have "(of_int (2 ^ nat (b - 1)) :: rat) \<le> of_int N" using lo by (simp only: of_int_le_iff)
  with Nlo have "of_int (2 ^ nat (b - 1)) < x" by linarith
  then have bx: "2 powi (b - 1) < x" using b by (simp add: power_int_nonneg_exp)
  have p1: "(0::rat) < 2 powi b" and p2: "(0::rat) < 2 powi (b - 1)" by simp_all
  have 1: "2 powi (- b) \<le> q"
    unfolding q power_int_minus_divide using xb x p1 by (simp add: frac_le)
  have "1 / x < 1 / 2 powi (b - 1)"
    using bx p2 by (simp add: frac_less2)
  then have 2: "q < 2 powi (- b + 1)"
    unfolding q using power_int_minus_divide [of "2::rat" "b - 1"] by simp
  from 1 2 fl show ?thesis by simp
qed

lemma floorLog2_bounds:
  assumes "0 < q"
  shows "2 powi floorLog2 q \<le> q" and "q < 2 powi (floorLog2 q + 1)"
  using floorLog2_ge1 [of q] floorLog2_lt1 [of q] assms by (cases "1 \<le> q"; simp)+

lemma floorLog2_unique:
  assumes "0 < q" "2 powi k \<le> q" "q < 2 powi (k + 1)"
  shows "floorLog2 q = k"
proof (rule antisym)
  have "(2::rat) powi floorLog2 q < 2 powi (k + 1)"
    using floorLog2_bounds(1) [OF assms(1)] assms(3) by linarith
  then have "\<not> k + 1 \<le> floorLog2 q"
    using power_int_increasing [of "k + 1" "floorLog2 q" "2::rat"] by auto
  then show "floorLog2 q \<le> k" by simp
  have "(2::rat) powi k < 2 powi (floorLog2 q + 1)"
    using floorLog2_bounds(2) [OF assms(1)] assms(2) by linarith
  then have "\<not> floorLog2 q + 1 \<le> k"
    using power_int_increasing [of "floorLog2 q + 1" k "2::rat"] by auto
  then show "k \<le> floorLog2 q" by simp
qed

lemma powi_less_cancel: "(2::rat) powi a < 2 powi b \<Longrightarrow> a < b"
  using power_int_increasing [of b a "2::rat"] by (cases "a < b") auto

lemma powi_split: "b \<le> a \<Longrightarrow> (2::rat) powi a = of_int (2 ^ nat (a - b)) * 2 powi b"
proof -
  assume "b \<le> a"
  then have "(2::rat) powi (a - b) = of_int (2 ^ nat (a - b))"
    by (simp add: power_int_nonneg_exp)
  moreover have "(2::rat) powi a = 2 powi (a - b) * 2 powi b"
    using power_int_add [of "2::rat" "a - b" b] by simp
  ultimately show ?thesis by simp
qed

subsection \<open>Rounding to an integer\<close>

lemma roundHalfEven_of_int: "roundHalfEven (of_int m) = m"
  by (simp add: roundHalfEven_def)

lemma roundHalfEven_lower:
  assumes "of_int a \<le> x" shows "a \<le> roundHalfEven x"
proof -
  have "a \<le> \<lfloor>x\<rfloor>" using assms by (simp add: le_floor_iff)
  moreover have "\<lfloor>x\<rfloor> \<le> roundHalfEven x"
    unfolding roundHalfEven_def Let_def by simp
  ultimately show ?thesis by linarith
qed

lemma roundHalfEven_upper:
  assumes "x \<le> of_int b" shows "roundHalfEven x \<le> b"
proof (cases "x = of_int \<lfloor>x\<rfloor>")
  case True
  then have "roundHalfEven x = \<lfloor>x\<rfloor>"
    by (metis roundHalfEven_of_int)
  moreover have "\<lfloor>x\<rfloor> \<le> b" using assms by (simp add: floor_le_iff)
  ultimately show ?thesis by simp
next
  case False
  then have "of_int \<lfloor>x\<rfloor> < x" by (metis of_int_floor_le order_le_less)
  with assms have "\<lfloor>x\<rfloor> < b"
    by (metis of_int_less_iff order_less_le_trans)
  moreover have "roundHalfEven x \<le> \<lfloor>x\<rfloor> + 1"
    unfolding roundHalfEven_def Let_def by simp
  ultimately show ?thesis by linarith
qed

subsection \<open>Values that rounding leaves as they are\<close>

text \<open>
  A positive multiple of a power of two with at most 53 significant bits and an
  exponent in range is a binary64 value: rounding returns it.
\<close>

lemma roundMagnitude_multiple:
  assumes "q < 2 powi 1024"
    and "q = of_int j * 2 powi (max (floorLog2 q - 52) (- 1074))"
  shows "roundMagnitude q = Some q"
proof -
  define e where "e = max (floorLog2 q - 52) (- 1074)"
  have "q / 2 powi e = of_int j"
    using assms(2) unfolding e_def [symmetric] by simp
  then have "of_int (roundHalfEven (q / 2 powi e)) * 2 powi e = q"
    using assms(2) unfolding e_def [symmetric] by (simp add: roundHalfEven_of_int)
  then show ?thesis
    using assms(1) unfolding roundMagnitude_def e_def [symmetric] Let_def by simp
qed

lemma roundMagnitude_exact:
  assumes m: "0 < m" "m < 2 ^ 53" and e: "- 1074 \<le> e" "e \<le> 971"
  shows "roundMagnitude (of_int m * 2 powi e) = Some (of_int m * 2 powi e)"
proof -
  define q :: rat where "q = of_int m * 2 powi e"
  define e' where "e' = max (floorLog2 q - 52) (- 1074)"
  have q0: "0 < q" unfolding q_def using m(1) by simp
  have "(of_int m :: rat) < of_int (2 ^ 53)" using m(2) by (simp only: of_int_less_iff)
  then have "q < 2 powi 53 * 2 powi e" unfolding q_def by simp
  also have "\<dots> = 2 powi (53 + e)" using power_int_add [of "2::rat" 53 e] by simp
  finally have qhi: "q < 2 powi (53 + e)" .
  with floorLog2_bounds(1) [OF q0] have "(2::rat) powi floorLog2 q < 2 powi (53 + e)"
    by linarith
  then have "floorLog2 q < 53 + e" by (rule powi_less_cancel)
  with e(1) have le: "e' \<le> e" unfolding e'_def by simp
  have "(2::rat) powi (53 + e) \<le> 2 powi 1024"
    using e(2) by (intro power_int_increasing) simp_all
  with qhi have "q < 2 powi 1024" by linarith
  moreover have "q = of_int (m * 2 ^ nat (e - e')) * 2 powi e'"
    unfolding q_def using powi_split [OF le] by simp
  ultimately show ?thesis
    unfolding q_def [symmetric] e'_def by (rule roundMagnitude_multiple)
qed

text \<open>
  The result of rounding is such a value, so rounding it again changes nothing.
\<close>

lemma roundMagnitude_idem:
  assumes q0: "0 < q" and r: "roundMagnitude q = Some r"
  shows "r = 0 \<or> (0 < r \<and> roundMagnitude r = Some r)"
proof -
  define k where "k = floorLog2 q"
  define e where "e = max (k - 52) (- 1074)"
  define m where "m = roundHalfEven (q / 2 powi e)"
  have r_def: "r = of_int m * 2 powi e" and rhi: "r < 2 powi 1024"
    using r unfolding roundMagnitude_def k_def [symmetric] e_def [symmetric] Let_def m_def
    by (simp_all split: if_splits)
  have e74: "- 1074 \<le> e" unfolding e_def by simp
  have "0 \<le> q / 2 powi e" using q0 by simp
  then have "of_int 0 \<le> q / 2 powi e" by simp
  then have m0: "0 \<le> m" unfolding m_def by (rule roundHalfEven_lower)
  have "q < 2 powi (k + 1)" unfolding k_def using q0 by (rule floorLog2_bounds)
  also have "(2::rat) powi (k + 1) \<le> 2 powi (53 + e)"
    unfolding e_def by (intro power_int_increasing) simp_all
  also have "\<dots> = of_int (2 ^ 53) * 2 powi e"
    using power_int_add [of "2::rat" 53 e] by simp
  finally have "q / 2 powi e \<le> of_int (2 ^ 53)"
    by (simp add: divide_le_eq)
  then have m53: "m \<le> 2 ^ 53" unfolding m_def by (rule roundHalfEven_upper)
  show ?thesis
  proof (cases "m = 0")
    case True
    then show ?thesis by (simp add: r_def)
  next
    case False
    with m0 have mpos: "0 < m" by simp
    then have rpos: "0 < r" unfolding r_def by simp
    show ?thesis
    proof (cases "m = 2 ^ 53")
      case True
      have "r = 2 powi (53 + e)"
        unfolding r_def True using power_int_add [of "2::rat" 53 e] by simp
      then have r2: "r = of_int (2 ^ 52) * 2 powi (e + 1)"
        using power_int_add [of "2::rat" 52 "e + 1"] by (simp add: add.commute)
      have "(2::rat) powi (53 + e) < 2 powi 1024" using rhi \<open>r = 2 powi (53 + e)\<close> by simp
      then have "53 + e < 1024" by (rule powi_less_cancel)
      then have "e + 1 \<le> 971" by simp
      with e74 have "roundMagnitude (of_int (2 ^ 52) * 2 powi (e + 1)) =
          Some (of_int (2 ^ 52) * 2 powi (e + 1))"
        by (intro roundMagnitude_exact) simp_all
      with r2 rpos show ?thesis by simp
    next
      case False
      with m53 have mlt: "m < 2 ^ 53" by simp
      have "e \<le> 971"
      proof (cases "k - 52 \<le> - 1074")
        case True
        then show ?thesis unfolding e_def by simp
      next
        case False
        then have ek: "e = k - 52" unfolding e_def by simp
        have "2 powi k \<le> q" unfolding k_def using q0 by (rule floorLog2_bounds)
        moreover have "(2::rat) powi k = of_int (2 ^ 52) * 2 powi e"
          unfolding ek using power_int_add [of "2::rat" 52 "k - 52"] by simp
        ultimately have "of_int (2 ^ 52) \<le> q / 2 powi e"
          by (simp add: le_divide_eq)
        then have "2 ^ 52 \<le> m" unfolding m_def by (rule roundHalfEven_lower)
        then have "(of_int (2 ^ 52) :: rat) \<le> of_int m" by (simp only: of_int_le_iff)
        then have "of_int (2 ^ 52) * 2 powi e \<le> r" unfolding r_def by simp
        with rhi have "(2::rat) powi (52 + e) < 2 powi 1024"
          using power_int_add [of "2::rat" 52 e] by simp
        then have "52 + e < 1024" by (rule powi_less_cancel)
        then show ?thesis by simp
      qed
      with mpos mlt e74 have "roundMagnitude r = Some r"
        unfolding r_def by (intro roundMagnitude_exact)
      with rpos show ?thesis by simp
    qed
  qed
qed

lemma is_double_roundDouble: "is_double (roundDouble q)"
proof (cases "q = 0")
  case True
  then show ?thesis by (simp add: roundDouble_def)
next
  case q: False
  show ?thesis
  proof (cases "0 < q")
    case True
    show ?thesis
    proof (cases "roundMagnitude q")
      case None
      with True q show ?thesis by (simp add: roundDouble_def)
    next
      case (Some r)
      from roundMagnitude_idem [OF True Some] have "roundDouble r = Fin r"
        by (auto simp: roundDouble_def)
      with True q Some show ?thesis by (simp add: roundDouble_def)
    qed
  next
    case False
    with q have neg: "0 < - q" by simp
    show ?thesis
    proof (cases "roundMagnitude (- q)")
      case None
      with False q show ?thesis by (simp add: roundDouble_def)
    next
      case (Some r)
      from roundMagnitude_idem [OF neg Some] have "roundDouble (- r) = Fin (- r)"
        by (auto simp: roundDouble_def)
      with False q Some show ?thesis by (simp add: roundDouble_def)
    qed
  qed
qed

text \<open>
  Whole numbers up to \<open>2\<^sup>5\<^sup>3\<close> in magnitude are binary64 values.
\<close>

lemma roundDouble_of_int:
  assumes "\<bar>n\<bar> \<le> 2 ^ 53"
  shows "roundDouble (of_int n) = Fin (of_int n)"
proof -
  have pos: "roundMagnitude (of_int j) = Some (of_int j)" if "0 < j" "j \<le> 2 ^ 53" for j :: int
  proof (cases "j = 2 ^ 53")
    case True
    have "roundMagnitude (of_int (2 ^ 52) * 2 powi 1) = Some (of_int (2 ^ 52) * 2 powi 1)"
      by (intro roundMagnitude_exact) simp_all
    then show ?thesis unfolding True by simp
  next
    case False
    with that have "roundMagnitude (of_int j * 2 powi 0) = Some (of_int j * 2 powi 0)"
      by (intro roundMagnitude_exact) simp_all
    then show ?thesis by simp
  qed
  consider "n = 0" | "0 < n" | "n < 0" by linarith
  then show ?thesis
  proof cases
    case 1
    then show ?thesis by (simp add: roundDouble_def)
  next
    case 2
    with assms pos [of n] show ?thesis by (simp add: roundDouble_def)
  next
    case 3
    with assms pos [of "- n"] show ?thesis by (simp add: roundDouble_def)
  qed
qed

lemma roundDouble_numeral:
  "numeral w \<le> (9007199254740992::int) \<Longrightarrow> roundDouble (numeral w) = Fin (numeral w)"
  using roundDouble_of_int [of "numeral w"] by simp

lemma roundDouble_1: "roundDouble 1 = Fin 1"
  using roundDouble_of_int [of 1] by simp

lemma is_double_num_mul: "is_double (num_mul x y)"
  by (cases x; cases y) (simp_all add: is_double_roundDouble)

lemma num_add_zero_left: "is_double x \<Longrightarrow> num_add (Fin 0) x = x"
  by (cases x) simp_all

text \<open>
  Around \<open>10\<^sup>1\<^sup>6\<close> the binary64 values are the even whole numbers, and
  \<open>10\<^sup>1\<^sup>6 + 1\<close> lies halfway between two of them: it rounds to the one whose
  last bit is zero.
\<close>

lemma big0: "roundDouble 10000000000000000 = Fin 10000000000000000"
  using roundMagnitude_exact [of 5000000000000000 1] by (simp add: roundDouble_def)

lemma big1: "roundDouble 10000000000000001 = Fin 10000000000000000"
proof -
  have "floorLog2 10000000000000001 = 53"
    by (rule floorLog2_unique) simp_all
  moreover have "\<lfloor>(10000000000000001::rat) / 2\<rfloor> = 5000000000000000"
    by (rule floor_unique) simp_all
  ultimately show ?thesis
    by (simp add: roundDouble_def roundMagnitude_def roundHalfEven_def Let_def)
qed

lemma big2: "roundDouble 10000000000000002 = Fin 10000000000000002"
  using roundMagnitude_exact [of 5000000000000001 1] by (simp add: roundDouble_def)

section \<open>numDays\<close>

lemma numDays_swap: "numDays a b = num_neg (numDays b a)"
  unfolding numDays_def Let_def by (subst num_sub_swap) (simp add: num_div_pos_neg)

lemma numDays_same: "numDays (ValidDate t) (ValidDate t) = Fin 0"
  by (simp add: numDays_def num_sub_def roundDouble_0)

lemma numDays_valid:
  "numDays (ValidDate a) (ValidDate b) = num_div_pos (roundDouble (of_int (b - a))) 86400000"
  by (simp add: numDays_def num_sub_def millisPerDay_def)

lemma numDays_rounded:
  assumes "\<bar>b - a\<bar> \<le> 2 ^ 53"
  shows "numDays (ValidDate a) (ValidDate b) = roundDouble (of_int (b - a) / 86400000)"
  unfolding numDays_valid roundDouble_of_int [OF assms] by simp

lemma numDays_whole:
  assumes "\<bar>k * 86400000\<bar> \<le> 2 ^ 53"
  shows "numDays (ValidDate a) (ValidDate (a + k * 86400000)) = Fin (of_int k)"
proof -
  from assms have "\<bar>k\<bar> \<le> 2 ^ 53" by simp
  then have "roundDouble (of_int k) = Fin (of_int k)" by (rule roundDouble_of_int)
  moreover from assms have "\<bar>a + k * 86400000 - a\<bar> \<le> 2 ^ 53" by simp
  ultimately show ?thesis by (simp add: numDays_rounded)
qed

text \<open>
  C3, as stated: \<^verbatim>\<open>numDays(d, d) = 0\<close> for every date \<open>d\<close>. It fails for the
  invalid date, whose time value is NaN: the difference and the quotient are NaN.
\<close>

theorem numDays_invalid_date_counterexample:
  "numDays InvalidDate InvalidDate = NaN \<and> numDays InvalidDate InvalidDate \<noteq> Fin 0"
  by (simp add: numDays_def num_sub_def)

text \<open>
  C3, amended: \<^verbatim>\<open>numDays\<close> is the difference of the two time values divided by
  86,400,000, both operations in binary64 arithmetic. For valid dates no more than
  \<open>2\<^sup>5\<^sup>3\<close> milliseconds apart the difference is exact and the result is the
  quotient rounded to the nearest binary64 value; it is the number of days itself
  when the dates are a whole number of days apart. \<^verbatim>\<open>numDays(d, d) = 0\<close> for every
  valid date \<open>d\<close>, and \<^verbatim>\<open>numDays(a, b) = -numDays(b, a)\<close> for every pair of dates,
  both sides being NaN when one of the dates is invalid.
\<close>

theorem numDays_properties:
  "numDays s e = num_div_pos (num_sub (getTime e) (getTime s)) 86400000 \<and>
   (\<bar>b - a\<bar> \<le> 2 ^ 53 \<longrightarrow>
      numDays (ValidDate a) (ValidDate b) = roundDouble (of_int (b - a) / 86400000)) \<and>
   (\<bar>k * 86400000\<bar> \<le> 2 ^ 53 \<longrightarrow>
      numDays (ValidDate a) (ValidDate (a + k * 86400000)) = Fin (of_int k)) \<and>
   numDays (ValidDate t) (ValidDate t) = Fin 0 \<and>
   numDays x y = num_neg (numDays y x)"
proof -
  have "numDays s e = num_div_pos (num_sub (getTime e) (getTime s)) 86400000"
    by (simp add: numDays_def millisPerDay_def)
  moreover note numDays_rounded [of b a] numDays_whole [of k a] numDays_same [of t]
    numDays_swap [of x y]
  ultimately show ?thesis by blast
qed

text \<open>
  The dates of the sample package, two days apart, satisfy both hypotheses.
\<close>

theorem numDays_properties_witness:
  "\<bar>1577836800000 - 1577664000000 :: int\<bar> \<le> 2 ^ 53 \<and>
   \<bar>2 * 86400000 :: int\<bar> \<le> 2 ^ 53 \<and>
   numDays (ValidDate 1577664000000) (ValidDate 1577836800000) = roundDouble (172800000 / 86400000) \<and>
   numDays (ValidDate 1577664000000) (ValidDate (1577664000000 + 2 * 86400000)) = Fin 2"
proof -
  have h1: "\<bar>1577836800000 - 1577664000000 :: int\<bar> \<le> 2 ^ 53" by simp
  have h2: "\<bar>2 * 86400000 :: int\<bar> \<le> 2 ^ 53" by simp
  note t = numDays_properties [of _ _ 1577836800000 1577664000000 2]
  from t [THEN conjunct2, THEN conjunct1, THEN mp, OF h1]
  have 1: "numDays (ValidDate 1577664000000) (ValidDate 1577836800000) =
      roundDouble (172800000 / 86400000)" by simp
  from t [THEN conjunct2, THEN conjunct2, THEN conjunct1, THEN mp, OF h2]
  have 2: "numDays (ValidDate 1577664000000) (ValidDate (1577664000000 + 2 * 86400000)) = Fin 2"
    by simp
  from h1 h2 1 2 show ?thesis by (intro conjI)
qed

section \<open>The two dispatch strategies on one product\<close>

lemma accept_pricing:
  "accept p pricingVisitor v =
     v\<lparr>PricingVisitor.price :=
         plus_number (PricingVisitor.price v) (calculatePrice (OfProduct p))\<rparr>"
  by (cases p)
     (simp_all add: pricingVisitor_def PricingVisitor_visitFlight_def
        PricingVisitor_visitHotel_def PricingVisitor_visitCar_def
        PricingVisitor_visitActivity_def)

lemma accept_itinerary:
  "accept p (itineraryVisitor pf) v =
     v\<lparr>itinerary := itinerary v @ ''\<newline>\<newline>'' @ itineraryBlock pf p\<rparr>"
  by (cases p)
     (simp_all add: itineraryVisitor_def itineraryBlock_def ItineraryVisitor_visitFlight_def
        ItineraryVisitor_visitHotel_def ItineraryVisitor_visitCar_def
        ItineraryVisitor_visitActivity_def)

lemma getItinerary_block: "getItinerary pf (OfProduct p) = Some (itineraryBlock pf p)"
  by (cases p) (simp_all add: itineraryBlock_def)

lemma calculatePrice_productPrice: "calculatePrice (OfProduct p) = Some (productPrice p)"
  by (cases p) (simp_all add: productPrice_def)

lemma is_double_productPrice: "numbers_ok p \<Longrightarrow> is_double (productPrice p)"
  by (cases p) (simp_all add: productPrice_def is_double_num_mul)

text \<open>
  C2: \<^verbatim>\<open>calculatePrice\<close> returns the \<^verbatim>\<open>price\<close> field of a flight, \<^verbatim>\<open>numDays\<close> of
  the two dates times the rate for a hotel and for a car, and the \<^verbatim>\<open>cost\<close> field of
  an activity; the pricing visitor adds the same four values to its total.
\<close>

theorem calculatePrice_formulas:
  "calculatePrice (OfProduct (AFlight f)) = Some (Flight.price f) \<and>
   calculatePrice (OfProduct (AHotel h)) =
     Some (num_mul (numDays (checkInDate h) (checkOutDate h)) (roomRate h)) \<and>
   calculatePrice (OfProduct (ACar c)) =
     Some (num_mul (numDays (pickupDate c) (dropOffDate c)) (dailyRate c)) \<and>
   calculatePrice (OfProduct (AnActivity a)) = Some (cost a) \<and>
   PricingVisitor.price (accept (AFlight f) pricingVisitor v) =
     num_add (PricingVisitor.price v) (Flight.price f) \<and>
   PricingVisitor.price (accept (AHotel h) pricingVisitor v) =
     num_add (PricingVisitor.price v)
       (num_mul (numDays (checkInDate h) (checkOutDate h)) (roomRate h)) \<and>
   PricingVisitor.price (accept (ACar c) pricingVisitor v) =
     num_add (PricingVisitor.price v)
       (num_mul (numDays (pickupDate c) (dropOffDate c)) (dailyRate c)) \<and>
   PricingVisitor.price (accept (AnActivity a) pricingVisitor v) =
     num_add (PricingVisitor.price v) (cost a)"
  by (simp add: pricingVisitor_def PricingVisitor_visitFlight_def
      PricingVisitor_visitHotel_def PricingVisitor_visitCar_def
      PricingVisitor_visitActivity_def)

text \<open>
  C7: \<^verbatim>\<open>accept\<close> of a product calls the visitor method of the product's own kind,
  with the product as argument, and nothing else: the outcome is that method's,
  and it stays the same when the visitor's three other methods are replaced.
\<close>

theorem accept_calls_matching_method:
  "accept (AFlight f) v = visitFlight v f \<and>
   accept (AHotel h) v = visitHotel v h \<and>
   accept (ACar c) v = visitCar v c \<and>
   accept (AnActivity a) v = visitActivity v a \<and>
   accept (AFlight f) (v\<lparr>visitHotel := mh, visitCar := mc, visitActivity := ma\<rparr>) =
     accept (AFlight f) v \<and>
   accept (AHotel h) (v\<lparr>visitFlight := mf, visitCar := mc, visitActivity := ma\<rparr>) =
     accept (AHotel h) v \<and>
   accept (ACar c) (v\<lparr>visitFlight := mf, visitHotel := mh, visitActivity := ma\<rparr>) =
     accept (ACar c) v \<and>
   accept (AnActivity a) (v\<lparr>visitFlight := mf, visitHotel := mh, visitCar := mc\<rparr>) =
     accept (AnActivity a) v"
  by simp

text \<open>
  C8, as stated: an argument outside the four kinds is a fault and not a silently
  returned non-value. The type switch returns \<^verbatim>\<open>undefined\<close> for it, which is the
  silently returned non-value.
\<close>

theorem calculatePrice_fallthrough_counterexample:
  "calculatePrice NotAProduct = None"
  by simp

text \<open>
  C8, amended: for an instance of \<^verbatim>\<open>Flight\<close>, \<^verbatim>\<open>Hotel\<close>, \<^verbatim>\<open>Car\<close> or \<^verbatim>\<open>Activity\<close>
  both functions of the type switch return a value; for an argument that is an
  instance of none of them both reach the end of the chain and return
  \<^verbatim>\<open>undefined\<close>, without a fault.
\<close>

theorem type_switch_exhaustive:
  "(\<exists>n. calculatePrice (OfProduct p) = Some n) \<and>
   (\<exists>s. getItinerary pf (OfProduct p) = Some s) \<and>
   calculatePrice NotAProduct = None \<and>
   getItinerary pf NotAProduct = None"
  by (cases p) simp_all

section \<open>Packages\<close>

lemma foldl_itinerary:
  "foldl (\<lambda>accumulator product.
            plus_string (accumulator @ ''\<newline>\<newline>'') (getItinerary pf (OfProduct product)))
     acc ps =
   acc @ concat (map (\<lambda>p. ''\<newline>\<newline>'' @ itineraryBlock pf p) ps)"
  by (induction ps arbitrary: acc) (simp_all add: getItinerary_block)

lemma fold_itinerary:
  "itinerary (fold (\<lambda>product. accept product (itineraryVisitor pf)) ps v) =
   itinerary v @ concat (map (\<lambda>p. ''\<newline>\<newline>'' @ itineraryBlock pf p) ps)"
  by (induction ps arbitrary: v) (simp_all add: accept_itinerary)

lemma fold_pricing:
  "PricingVisitor.price (fold (\<lambda>product. accept product pricingVisitor) ps v) =
   foldl (\<lambda>accumulator product. plus_number accumulator (calculatePrice (OfProduct product)))
     (PricingVisitor.price v) ps"
  by (induction ps arbitrary: v) (simp_all add: accept_pricing)

lemma price_variants_agree:
  "VacationPackage_calculatePrice_visitor this = VacationPackage_calculatePrice this"
  by (simp add: VacationPackage_calculatePrice_visitor_def VacationPackage_calculatePrice_def
      fold_pricing new_PricingVisitor_def)

lemma itinerary_variants_agree:
  "VacationPackage_getItinerary_visitor pf this = VacationPackage_getItinerary pf this"
  by (simp add: VacationPackage_getItinerary_visitor_def VacationPackage_getItinerary_def
      fold_itinerary foldl_itinerary new_ItineraryVisitor_def)

lemma foldl_productPrice:
  "foldl (\<lambda>accumulator product.
            plus_number accumulator (calculatePrice (OfProduct product))) acc ps =
   foldl (\<lambda>accumulator product. num_add accumulator (productPrice product)) acc ps"
  by (simp add: calculatePrice_productPrice)

text \<open>
  C1: for a product whose numbers are binary64 values, \<^verbatim>\<open>calculatePrice\<close> of the
  type switch returns the number that a new pricing visitor holds after the
  product accepted it; the block that \<^verbatim>\<open>getItinerary\<close> of the type switch returns is
  the text that the itinerary visitor appends after the blank line; and the two
  files give every package the same total price and the same itinerary, character
  by character.
\<close>

theorem dispatch_strategies_agree:
  "(numbers_ok p \<longrightarrow>
      calculatePrice (OfProduct p) =
        Some (PricingVisitor.price (accept p pricingVisitor new_PricingVisitor))) \<and>
   (\<exists>block. getItinerary pf (OfProduct p) = Some block \<and>
      (\<forall>v. itinerary (accept p (itineraryVisitor pf) v) =
         itinerary v @ ''\<newline>\<newline>'' @ block)) \<and>
   VacationPackage_calculatePrice_visitor this = VacationPackage_calculatePrice this \<and>
   VacationPackage_getItinerary_visitor pf this = VacationPackage_getItinerary pf this"
proof -
  have 1: "numbers_ok p \<longrightarrow>
      calculatePrice (OfProduct p) =
        Some (PricingVisitor.price (accept p pricingVisitor new_PricingVisitor))"
  proof
    assume "numbers_ok p"
    then have "is_double (productPrice p)" by (rule is_double_productPrice)
    then have "num_add (Fin 0) (productPrice p) = productPrice p" by (rule num_add_zero_left)
    then show "calculatePrice (OfProduct p) =
        Some (PricingVisitor.price (accept p pricingVisitor new_PricingVisitor))"
      by (simp add: accept_pricing calculatePrice_productPrice new_PricingVisitor_def)
  qed
  have 2: "\<exists>block. getItinerary pf (OfProduct p) = Some block \<and>
      (\<forall>v. itinerary (accept p (itineraryVisitor pf) v) =
         itinerary v @ ''\<newline>\<newline>'' @ block)"
    by (intro exI [of _ "itineraryBlock pf p"] conjI allI)
       (simp_all add: getItinerary_block accept_itinerary)
  show ?thesis
    by (rule conjI [OF 1 conjI [OF 2 conjI [OF price_variants_agree itinerary_variants_agree]]])
qed

text \<open>
  The first flight of the sample package is such a product: both ways give 300.
\<close>

theorem dispatch_strategies_agree_witness:
  "numbers_ok (AFlight \<lparr>flightNumber = ''TV 312'', origin = ''BOS'', destination = ''JFK'',
      departureTime = startDate, price = Fin 300\<rparr>) \<and>
   calculatePrice (OfProduct (AFlight \<lparr>flightNumber = ''TV 312'', origin = ''BOS'',
      destination = ''JFK'', departureTime = startDate, price = Fin 300\<rparr>)) = Some (Fin 300) \<and>
   PricingVisitor.price (accept (AFlight \<lparr>flightNumber = ''TV 312'', origin = ''BOS'',
      destination = ''JFK'', departureTime = startDate, price = Fin 300\<rparr>)
      pricingVisitor new_PricingVisitor) = Fin 300"
proof -
  have h: "numbers_ok (AFlight \<lparr>flightNumber = ''TV 312'', origin = ''BOS'',
      destination = ''JFK'', departureTime = startDate, price = Fin 300\<rparr>)"
    by (simp add: roundDouble_numeral)
  from dispatch_strategies_agree [THEN conjunct1, THEN mp, OF h]
  have "PricingVisitor.price (accept (AFlight \<lparr>flightNumber = ''TV 312'', origin = ''BOS'',
      destination = ''JFK'', departureTime = startDate, price = Fin 300\<rparr>)
      pricingVisitor new_PricingVisitor) = Fin 300"
    by simp
  with h show ?thesis by simp
qed

text \<open>
  C5: the itinerary of a package is the header followed, for each product in the
  order of insertion, by a blank line and the product's block, and nothing else;
  in both files.
\<close>

theorem getItinerary_layout:
  "VacationPackage_getItinerary pf this =
     ''Itinerary\<newline>========='' @
     concat (map (\<lambda>p. ''\<newline>\<newline>'' @ itineraryBlock pf p) (products this)) \<and>
   VacationPackage_getItinerary_visitor pf this =
     ''Itinerary\<newline>========='' @
     concat (map (\<lambda>p. ''\<newline>\<newline>'' @ itineraryBlock pf p) (products this)) \<and>
   getItinerary pf (OfProduct p) = Some (itineraryBlock pf p)"
proof -
  have "VacationPackage_getItinerary pf this =
     ''Itinerary\<newline>========='' @
     concat (map (\<lambda>p. ''\<newline>\<newline>'' @ itineraryBlock pf p) (products this))"
    unfolding VacationPackage_getItinerary_def by (rule foldl_itinerary)
  then show ?thesis
    by (simp only: itinerary_variants_agree getItinerary_block simp_thms)
qed

text \<open>
  C10: a package to which nothing was added has price 0 and the header alone as
  its itinerary, in both files.
\<close>

theorem empty_package:
  "VacationPackage_calculatePrice new_VacationPackage = Fin 0 \<and>
   VacationPackage_calculatePrice_visitor new_VacationPackage = Fin 0 \<and>
   VacationPackage_getItinerary pf new_VacationPackage = ''Itinerary\<newline>========='' \<and>
   VacationPackage_getItinerary_visitor pf new_VacationPackage = ''Itinerary\<newline>=========''"
  by (simp add: new_VacationPackage_def VacationPackage_calculatePrice_def
      VacationPackage_calculatePrice_visitor_def VacationPackage_getItinerary_def
      VacationPackage_getItinerary_visitor_def new_PricingVisitor_def new_ItineraryVisitor_def)

section \<open>The methods on the heap\<close>

lemma load_cell: "cell h r = Some obj \<Longrightarrow> load r h = Some (obj, h)"
  by (simp add: load_def)

lemma cell_append: "cell h r = Some obj \<Longrightarrow> cell (h @ h') r = Some obj"
  by (auto simp: cell_def nth_append split: if_splits)

lemma cell_new: "cell (h @ [obj]) (length h) = Some obj"
  by (simp add: cell_def)

lemma those_map_nth:
  "those (map f xs) = Some ps \<Longrightarrow>
   length ps = length xs \<and> (\<forall>k<length xs. f (xs ! k) = Some (ps ! k))"
proof (induction xs arbitrary: ps)
  case Nil
  then show ?case by simp
next
  case (Cons x xs)
  from Cons.prems obtain y ys where y: "f x = Some y" and ys: "those (map f xs) = Some ys"
    and ps: "ps = y # ys"
    by (auto split: option.splits)
  from Cons.IH [OF ys] y ps show ?case
    by (auto simp: nth_Cons split: nat.splits)
qed

lemma those_map_snoc:
  "those (map f xs) = Some ps \<Longrightarrow> f y = Some p \<Longrightarrow> those (map f (xs @ [y])) = Some (ps @ [p])"
  by (induction xs arbitrary: ps) (auto split: option.splits)

lemma steps_tracked:
  assumes "\<And>k s t. k \<in> set ks \<Longrightarrow> body k s (H t) = Some (gs s k, H (gt t k))"
  shows "steps ks body s (H t) = Some (foldl gs s ks, H (foldl gt t ks))"
  using assms
proof (induction ks arbitrary: s t)
  case Nil
  show ?case by (simp add: ret_def)
next
  case (Cons k ks)
  have "body k s (H t) = Some (gs s k, H (gt t k))" by (rule Cons.prems) simp
  then have "steps (k # ks) body s (H t) = steps ks body (gs s k) (H (gt t k))"
    by (simp add: bnd_def)
  also have "\<dots> = Some (foldl gs (gs s k) ks, H (foldl gt (gt t k) ks))"
    by (rule Cons.IH) (simp add: Cons.prems)
  finally show ?case by simp
qed

lemma foldl_nth: "foldl (\<lambda>a k. F a (ps ! k)) a [0..<length ps] = foldl F a ps"
proof -
  have "foldl F a ps = foldl F a (map (nth ps) [0..<length ps])"
    by (simp only: map_nth)
  then show ?thesis by (simp only: foldl_map)
qed

lemma reduce_tracked:
  assumes arr: "\<And>t. cell (H t) array = Some (ArrayObject xs)"
    and len: "length ps = length xs"
    and cb: "\<And>k s t. k < length xs \<Longrightarrow>
       callback s (xs ! k) (H t) = Some (gs s (ps ! k), H (gt t (ps ! k)))"
  shows "reduce array callback s (H t) = Some (foldl gs s ps, H (foldl gt t ps))"
proof -
  have ld: "load array (H t) = Some (ArrayObject xs, H t)" for t
    using arr [of t] by (rule load_cell)
  have n: "array_length array (H t) = Some (length xs, H t)"
    by (simp add: array_length_def bnd_def ld ret_def)
  have body: "bnd (element array k) (\<lambda>x. case x of
            Some v \<Rightarrow> callback s v | None \<Rightarrow> ret s) (H t) =
        Some (gs s (ps ! k), H (gt t (ps ! k)))" if "k \<in> set [0..<length xs]" for k s t
  proof -
    from that have k: "k < length xs" by simp
    then have "element array k (H t) = Some (Some (xs ! k), H t)"
      by (simp add: element_def bnd_def ld ret_def)
    then show ?thesis by (simp add: bnd_def cb [OF k])
  qed
  have "reduce array callback s (H t) =
      steps [0..<length xs]
        (\<lambda>k accumulator. bnd (element array k) (\<lambda>x. case x of
            Some v \<Rightarrow> callback accumulator v | None \<Rightarrow> ret accumulator)) s (H t)"
    by (simp add: reduce_def bnd_def n)
  also have "\<dots> = Some (foldl (\<lambda>a k. gs a (ps ! k)) s [0..<length xs],
      H (foldl (\<lambda>a k. gt a (ps ! k)) t [0..<length xs]))"
    by (rule steps_tracked) (rule body)
  finally show ?thesis unfolding len [symmetric] foldl_nth .
qed

lemma those_map_mono:
  "those (map f xs) = Some ps \<Longrightarrow> (\<And>x p. f x = Some p \<Longrightarrow> g x = Some p) \<Longrightarrow>
   those (map g xs) = Some ps"
  by (induction xs arbitrary: ps) (auto split: option.splits)

lemma product_at_append: "product_at h r = Some p \<Longrightarrow> product_at (h @ h') r = Some p"
  by (auto simp: product_at_def cell_def nth_append split: if_splits)

lemma get_products_cell:
  "cell h this = Some (VacationPackageObject array) \<Longrightarrow> get_products this h = Some (array, h)"
  by (simp add: get_products_def bnd_def load_def ret_def)

lemma calculatePrice_heap_product:
  "product_at h r = Some p \<Longrightarrow>
   calculatePrice_heap r h = Some (calculatePrice (OfProduct p), h)"
  by (auto simp: calculatePrice_heap_def product_at_def bnd_def load_def ret_def as_jsvalue_def
      split: option.splits)

lemma getItinerary_heap_product:
  "product_at h r = Some p \<Longrightarrow>
   getItinerary_heap pf r h = Some (getItinerary pf (OfProduct p), h)"
  by (auto simp: getItinerary_heap_def product_at_def bnd_def load_def ret_def as_jsvalue_def
      split: option.splits)

lemma accept_heap_product:
  "product_at h r = Some p \<Longrightarrow> accept_heap r v h = v p h"
  by (auto simp: accept_heap_def product_at_def bnd_def load_def split: option.splits)

lemma PricingVisitor_heap_new:
  "PricingVisitor_heap (length h) p (h @ [PricingVisitorObject s]) =
   Some ((), h @ [PricingVisitorObject (accept p pricingVisitor s)])"
  by (simp add: PricingVisitor_heap_def bnd_def load_def cell_new store_def)

lemma ItineraryVisitor_heap_new:
  "ItineraryVisitor_heap pf (length h) p (h @ [ItineraryVisitorObject s]) =
   Some ((), h @ [ItineraryVisitorObject (accept p (itineraryVisitor pf) s)])"
  by (simp add: ItineraryVisitor_heap_def bnd_def load_def cell_new store_def)

lemma type_switch_price_heap:
  assumes pk: "cell h this = Some (VacationPackageObject array)"
    and arr: "cell h array = Some (ArrayObject xs)"
    and ps: "those (map (product_at h) xs) = Some ps"
  shows "VacationPackage_calculatePrice_heap this h =
    Some (VacationPackage_calculatePrice \<lparr>products = ps\<rparr>, h)"
proof -
  from those_map_nth [OF ps] have len: "length ps = length xs"
    and at: "\<And>k. k < length xs \<Longrightarrow> product_at h (xs ! k) = Some (ps ! k)" by simp_all
  have "reduce array
      (\<lambda>accumulator product.
          bnd (calculatePrice_heap product) (\<lambda>r. ret (plus_number accumulator r)))
      (Fin 0) ((\<lambda>u::unit. h) ()) =
    Some (foldl (\<lambda>a p. plus_number a (calculatePrice (OfProduct p))) (Fin 0) ps,
      (\<lambda>u::unit. h) (foldl (\<lambda>t p. t) () ps))"
  proof (rule reduce_tracked [where gt = "\<lambda>t p. t"])
    show "cell h array = Some (ArrayObject xs)" by (rule arr)
    show "length ps = length xs" by (rule len)
    show "bnd (calculatePrice_heap (xs ! k)) (\<lambda>r. ret (plus_number s r)) h =
        Some (plus_number s (calculatePrice (OfProduct (ps ! k))), h)"
      if "k < length xs" for k s
      by (simp add: bnd_def ret_def calculatePrice_heap_product [OF at [OF that]])
  qed
  then show ?thesis
    by (simp add: VacationPackage_calculatePrice_heap_def VacationPackage_calculatePrice_def
        bnd_def get_products_cell [OF pk])
qed

lemma type_switch_itinerary_heap:
  assumes pk: "cell h this = Some (VacationPackageObject array)"
    and arr: "cell h array = Some (ArrayObject xs)"
    and ps: "those (map (product_at h) xs) = Some ps"
  shows "VacationPackage_getItinerary_heap pf this h =
    Some (VacationPackage_getItinerary pf \<lparr>products = ps\<rparr>, h)"
proof -
  from those_map_nth [OF ps] have len: "length ps = length xs"
    and at: "\<And>k. k < length xs \<Longrightarrow> product_at h (xs ! k) = Some (ps ! k)" by simp_all
  have "reduce array
      (\<lambda>accumulator product.
          bnd (getItinerary_heap pf product)
            (\<lambda>r. ret (plus_string (accumulator @ ''\<newline>\<newline>'') r)))
      ''Itinerary\<newline>========='' ((\<lambda>u::unit. h) ()) =
    Some (foldl (\<lambda>a p. plus_string (a @ ''\<newline>\<newline>'') (getItinerary pf (OfProduct p)))
        ''Itinerary\<newline>========='' ps,
      (\<lambda>u::unit. h) (foldl (\<lambda>t p. t) () ps))"
  proof (rule reduce_tracked [where gt = "\<lambda>t p. t"])
    show "cell h array = Some (ArrayObject xs)" by (rule arr)
    show "length ps = length xs" by (rule len)
    show "bnd (getItinerary_heap pf (xs ! k))
          (\<lambda>r. ret (plus_string (s @ ''\<newline>\<newline>'') r)) h =
        Some (plus_string (s @ ''\<newline>\<newline>'') (getItinerary pf (OfProduct (ps ! k))), h)"
      if "k < length xs" for k s
      by (simp add: bnd_def ret_def getItinerary_heap_product [OF at [OF that]])
  qed
  then show ?thesis
    by (simp add: VacationPackage_getItinerary_heap_def VacationPackage_getItinerary_def
        bnd_def get_products_cell [OF pk])
qed

lemma visitor_price_heap:
  assumes pk: "cell h this = Some (VacationPackageObject array)"
    and arr: "cell h array = Some (ArrayObject xs)"
    and ps: "those (map (product_at h) xs) = Some ps"
  shows "VacationPackage_calculatePrice_visitor_heap this h =
    Some (VacationPackage_calculatePrice_visitor \<lparr>products = ps\<rparr>,
      h @ [PricingVisitorObject
             (fold (\<lambda>product. accept product pricingVisitor) ps new_PricingVisitor)])"
proof -
  define H where "H = (\<lambda>s. h @ [PricingVisitorObject s])"
  define final where "final = fold (\<lambda>product. accept product pricingVisitor) ps new_PricingVisitor"
  from those_map_nth [OF ps] have len: "length ps = length xs"
    and at: "\<And>k. k < length xs \<Longrightarrow> product_at h (xs ! k) = Some (ps ! k)" by simp_all
  have atH: "product_at (H s) (xs ! k) = Some (ps ! k)" if "k < length xs" for k s
    unfolding H_def using at [OF that] by (rule product_at_append)
  have "forEach array (\<lambda>product. accept_heap product (PricingVisitor_heap (length h)))
      (H new_PricingVisitor) =
    Some (foldl (\<lambda>u p. ()) () ps, H (foldl (\<lambda>s p. accept p pricingVisitor s) new_PricingVisitor ps))"
    unfolding forEach_def
  proof (rule reduce_tracked)
    show "cell (H s) array = Some (ArrayObject xs)" for s
      unfolding H_def using arr by (rule cell_append)
    show "length ps = length xs" by (rule len)
    show "accept_heap (xs ! k) (PricingVisitor_heap (length h)) (H s) =
        Some ((), H (accept (ps ! k) pricingVisitor s))" if "k < length xs" for k and u :: unit and s
    proof -
      have "accept_heap (xs ! k) (PricingVisitor_heap (length h)) (H s) =
          PricingVisitor_heap (length h) (ps ! k) (H s)"
        by (rule accept_heap_product [OF atH [OF that]])
      also have "\<dots> = Some ((), H (accept (ps ! k) pricingVisitor s))"
        unfolding H_def by (rule PricingVisitor_heap_new)
      finally show ?thesis .
    qed
  qed
  then have each: "forEach array (\<lambda>product. accept_heap product (PricingVisitor_heap (length h)))
      (H new_PricingVisitor) = Some ((), H final)"
    by (simp add: final_def foldl_conv_fold)
  have gp: "get_products this (H new_PricingVisitor) = Some (array, H new_PricingVisitor)"
    unfolding H_def by (rule get_products_cell [OF cell_append [OF pk]])
  have ld: "load (length h) (H final) = Some (PricingVisitorObject final, H final)"
    unfolding H_def by (simp add: load_def cell_new)
  show ?thesis
    unfolding VacationPackage_calculatePrice_visitor_heap_def
    by (simp add: bnd_def new_def gp [unfolded H_def] each [unfolded H_def] ld [unfolded H_def]
        ret_def VacationPackage_calculatePrice_visitor_def final_def [symmetric])
qed

lemma visitor_itinerary_heap:
  assumes pk: "cell h this = Some (VacationPackageObject array)"
    and arr: "cell h array = Some (ArrayObject xs)"
    and ps: "those (map (product_at h) xs) = Some ps"
  shows "VacationPackage_getItinerary_visitor_heap pf this h =
    Some (VacationPackage_getItinerary_visitor pf \<lparr>products = ps\<rparr>,
      h @ [ItineraryVisitorObject
             (fold (\<lambda>product. accept product (itineraryVisitor pf)) ps new_ItineraryVisitor)])"
proof -
  define H where "H = (\<lambda>s. h @ [ItineraryVisitorObject s])"
  define final where
    "final = fold (\<lambda>product. accept product (itineraryVisitor pf)) ps new_ItineraryVisitor"
  from those_map_nth [OF ps] have len: "length ps = length xs"
    and at: "\<And>k. k < length xs \<Longrightarrow> product_at h (xs ! k) = Some (ps ! k)" by simp_all
  have atH: "product_at (H s) (xs ! k) = Some (ps ! k)" if "k < length xs" for k s
    unfolding H_def using at [OF that] by (rule product_at_append)
  have "forEach array (\<lambda>product. accept_heap product (ItineraryVisitor_heap pf (length h)))
      (H new_ItineraryVisitor) =
    Some (foldl (\<lambda>u p. ()) () ps,
      H (foldl (\<lambda>s p. accept p (itineraryVisitor pf) s) new_ItineraryVisitor ps))"
    unfolding forEach_def
  proof (rule reduce_tracked)
    show "cell (H s) array = Some (ArrayObject xs)" for s
      unfolding H_def using arr by (rule cell_append)
    show "length ps = length xs" by (rule len)
    show "accept_heap (xs ! k) (ItineraryVisitor_heap pf (length h)) (H s) =
        Some ((), H (accept (ps ! k) (itineraryVisitor pf) s))"
      if "k < length xs" for k and u :: unit and s
    proof -
      have "accept_heap (xs ! k) (ItineraryVisitor_heap pf (length h)) (H s) =
          ItineraryVisitor_heap pf (length h) (ps ! k) (H s)"
        by (rule accept_heap_product [OF atH [OF that]])
      also have "\<dots> = Some ((), H (accept (ps ! k) (itineraryVisitor pf) s))"
        unfolding H_def by (rule ItineraryVisitor_heap_new)
      finally show ?thesis .
    qed
  qed
  then have each:
    "forEach array (\<lambda>product. accept_heap product (ItineraryVisitor_heap pf (length h)))
      (H new_ItineraryVisitor) = Some ((), H final)"
    by (simp add: final_def foldl_conv_fold)
  have gp: "get_products this (H new_ItineraryVisitor) = Some (array, H new_ItineraryVisitor)"
    unfolding H_def by (rule get_products_cell [OF cell_append [OF pk]])
  have ld: "load (length h) (H final) = Some (ItineraryVisitorObject final, H final)"
    unfolding H_def by (simp add: load_def cell_new)
  show ?thesis
    unfolding VacationPackage_getItinerary_visitor_heap_def
    by (simp add: bnd_def new_def gp [unfolded H_def] each [unfolded H_def] ld [unfolded H_def]
        ret_def VacationPackage_getItinerary_visitor_def final_def [symmetric])
qed

lemma add_heap_result:
  assumes pk: "cell h this = Some (VacationPackageObject array)"
    and arr: "cell h array = Some (ArrayObject xs)"
  shows "add_heap this product h = Some ((), h[array := ArrayObject (xs @ [product])])"
proof -
  from arr have "array < length h" by (simp add: cell_def split: if_splits)
  then show ?thesis
    by (simp add: add_heap_def bnd_def get_products_cell [OF pk] push_def load_def arr store_def)
qed

lemma add_heap_cells:
  "r \<noteq> array \<Longrightarrow> cell (h[array := obj]) r = cell h r"
  by (simp add: cell_def)

lemma add_heap_products:
  assumes arr: "cell h array = Some (ArrayObject xs)"
  shows "product_at (h[array := ArrayObject ys]) r = product_at h r"
proof (cases "r = array")
  case True
  with arr show ?thesis by (auto simp: product_at_def cell_def split: if_splits)
next
  case False
  then show ?thesis by (simp add: product_at_def add_heap_cells)
qed

text \<open>
  C9: on a heap where \<open>this\<close> is a package whose array holds references to
  products, \<^verbatim>\<open>add\<close> writes the array with its argument appended, whatever the
  argument is and whether the array holds it already, and changes no other object:
  the products are the earlier ones, as they were, followed by the new one.
  \<^verbatim>\<open>calculatePrice\<close> and \<^verbatim>\<open>getItinerary\<close> of the type switch leave the heap as it
  is; those of the visitor file make one new object, their visitor, and change no
  object that was there. Each returns what the function of the same name above
  gives for the products, and called twice in a row returns it twice.
\<close>

theorem package_methods_on_heap:
  assumes pk: "cell h this = Some (VacationPackageObject array)"
    and arr: "cell h array = Some (ArrayObject xs)"
    and ps: "those (map (product_at h) xs) = Some ps"
  shows
    "add_heap this product h = Some ((), h[array := ArrayObject (xs @ [product])]) \<and>
     (\<forall>r. r \<noteq> array \<longrightarrow> cell (h[array := ArrayObject (xs @ [product])]) r = cell h r) \<and>
     (\<forall>r. product_at (h[array := ArrayObject (xs @ [product])]) r = product_at h r) \<and>
     (product_at h product = Some p \<longrightarrow>
        those (map (product_at (h[array := ArrayObject (xs @ [product])])) (xs @ [product])) =
          Some (products (add p \<lparr>products = ps\<rparr>))) \<and>
     VacationPackage_calculatePrice_heap this h =
       Some (VacationPackage_calculatePrice \<lparr>products = ps\<rparr>, h) \<and>
     VacationPackage_getItinerary_heap pf this h =
       Some (VacationPackage_getItinerary pf \<lparr>products = ps\<rparr>, h) \<and>
     VacationPackage_calculatePrice_visitor_heap this h =
       Some (VacationPackage_calculatePrice_visitor \<lparr>products = ps\<rparr>,
         h @ [PricingVisitorObject
                (fold (\<lambda>product. accept product pricingVisitor) ps new_PricingVisitor)]) \<and>
     VacationPackage_getItinerary_visitor_heap pf this h =
       Some (VacationPackage_getItinerary_visitor pf \<lparr>products = ps\<rparr>,
         h @ [ItineraryVisitorObject
                (fold (\<lambda>product. accept product (itineraryVisitor pf)) ps
                   new_ItineraryVisitor)]) \<and>
     map_option fst (twice (VacationPackage_calculatePrice_heap this) h) =
       Some (VacationPackage_calculatePrice \<lparr>products = ps\<rparr>,
             VacationPackage_calculatePrice \<lparr>products = ps\<rparr>) \<and>
     map_option fst (twice (VacationPackage_getItinerary_heap pf this) h) =
       Some (VacationPackage_getItinerary pf \<lparr>products = ps\<rparr>,
             VacationPackage_getItinerary pf \<lparr>products = ps\<rparr>) \<and>
     map_option fst (twice (VacationPackage_calculatePrice_visitor_heap this) h) =
       Some (VacationPackage_calculatePrice_visitor \<lparr>products = ps\<rparr>,
             VacationPackage_calculatePrice_visitor \<lparr>products = ps\<rparr>) \<and>
     map_option fst (twice (VacationPackage_getItinerary_visitor_heap pf this) h) =
       Some (VacationPackage_getItinerary_visitor pf \<lparr>products = ps\<rparr>,
             VacationPackage_getItinerary_visitor pf \<lparr>products = ps\<rparr>)"
proof -
  let ?h' = "h[array := ArrayObject (xs @ [product])]"
  have 1: "add_heap this product h = Some ((), ?h')"
    using pk arr by (rule add_heap_result)
  have 2: "\<forall>r. r \<noteq> array \<longrightarrow> cell ?h' r = cell h r"
    by (simp add: add_heap_cells)
  have 3: "\<forall>r. product_at ?h' r = product_at h r"
    using add_heap_products [OF arr] by simp
  have 4: "product_at h product = Some p \<longrightarrow>
      those (map (product_at ?h') (xs @ [product])) = Some (products (add p \<lparr>products = ps\<rparr>))"
  proof
    assume p: "product_at h product = Some p"
    have same: "product_at ?h' = product_at h"
      by (rule ext) (rule add_heap_products [OF arr])
    have "those (map (product_at ?h') xs) = Some ps"
      using ps by (simp only: same)
    moreover have "product_at ?h' product = Some p"
      using p by (simp only: same)
    ultimately have "those (map (product_at ?h') (xs @ [product])) = Some (ps @ [p])"
      by (rule those_map_snoc)
    then show "those (map (product_at ?h') (xs @ [product])) =
        Some (products (add p \<lparr>products = ps\<rparr>))"
      by (simp add: add_def)
  qed
  note 5 = type_switch_price_heap [OF pk arr ps]
  note 6 = type_switch_itinerary_heap [OF pk arr ps, of pf]
  note 7 = visitor_price_heap [OF pk arr ps]
  note 8 = visitor_itinerary_heap [OF pk arr ps, of pf]
  have grown: "cell (h @ g) this = Some (VacationPackageObject array)"
    "cell (h @ g) array = Some (ArrayObject xs)"
    "those (map (product_at (h @ g)) xs) = Some ps" for g
    using pk arr those_map_mono [OF ps product_at_append]
    by (simp_all add: cell_append)
  have 9: "map_option fst (twice (VacationPackage_calculatePrice_heap this) h) =
      Some (VacationPackage_calculatePrice \<lparr>products = ps\<rparr>,
            VacationPackage_calculatePrice \<lparr>products = ps\<rparr>)"
    by (simp add: twice_def bnd_def ret_def 5)
  have 10: "map_option fst (twice (VacationPackage_getItinerary_heap pf this) h) =
      Some (VacationPackage_getItinerary pf \<lparr>products = ps\<rparr>,
            VacationPackage_getItinerary pf \<lparr>products = ps\<rparr>)"
    by (simp add: twice_def bnd_def ret_def 6)
  have 11: "map_option fst (twice (VacationPackage_calculatePrice_visitor_heap this) h) =
      Some (VacationPackage_calculatePrice_visitor \<lparr>products = ps\<rparr>,
            VacationPackage_calculatePrice_visitor \<lparr>products = ps\<rparr>)"
    by (simp add: twice_def bnd_def ret_def 7 visitor_price_heap [OF grown])
  have 12: "map_option fst (twice (VacationPackage_getItinerary_visitor_heap pf this) h) =
      Some (VacationPackage_getItinerary_visitor pf \<lparr>products = ps\<rparr>,
            VacationPackage_getItinerary_visitor pf \<lparr>products = ps\<rparr>)"
    by (simp add: twice_def bnd_def ret_def 8 visitor_itinerary_heap [OF grown])
  show ?thesis
    by (intro conjI) (rule 1 2 3 4 5 6 7 8 9 10 11 12)+
qed

text \<open>
  The heap with one flight is such a heap; the flight is added a second time.
\<close>

theorem package_methods_on_heap_witness:
  "cell sampleHeap 2 = Some (VacationPackageObject 1) \<and>
   cell sampleHeap 1 = Some (ArrayObject [0]) \<and>
   those (map (product_at sampleHeap) [0]) =
     Some [AFlight \<lparr>flightNumber = ''TV 312'', origin = ''BOS'', destination = ''JFK'',
        departureTime = startDate, price = Fin 300\<rparr>] \<and>
   add_heap 2 0 sampleHeap = Some ((), sampleHeap[1 := ArrayObject [0, 0]]) \<and>
   VacationPackage_calculatePrice_heap 2 sampleHeap = Some (Fin 300, sampleHeap) \<and>
   VacationPackage_calculatePrice_visitor_heap 2 sampleHeap =
     Some (Fin 300, sampleHeap @ [PricingVisitorObject \<lparr>price = Fin 300\<rparr>])"
proof -
  let ?f = "\<lparr>flightNumber = ''TV 312'', origin = ''BOS'', destination = ''JFK'',
        departureTime = startDate, price = Fin 300\<rparr>"
  have h1: "cell sampleHeap 2 = Some (VacationPackageObject 1)"
    by (simp add: sampleHeap_def cell_def)
  have h2: "cell sampleHeap 1 = Some (ArrayObject [0])"
    by (simp add: sampleHeap_def cell_def)
  have h3: "those (map (product_at sampleHeap) [0]) = Some [AFlight ?f]"
    by (simp add: sampleHeap_def product_at_def cell_def)
  note t = package_methods_on_heap [OF h1 h2 h3, of 0]
  have a: "add_heap 2 0 sampleHeap = Some ((), sampleHeap[1 := ArrayObject [0, 0]])"
    using t [THEN conjunct1] by simp
  have price: "VacationPackage_calculatePrice \<lparr>products = [AFlight ?f]\<rparr> = Fin 300"
    by (simp add: VacationPackage_calculatePrice_def roundDouble_numeral)
  have b: "VacationPackage_calculatePrice_heap 2 sampleHeap = Some (Fin 300, sampleHeap)"
    using t [THEN conjunct2, THEN conjunct2, THEN conjunct2, THEN conjunct2, THEN conjunct1]
    by (simp add: price)
  have c: "VacationPackage_calculatePrice_visitor_heap 2 sampleHeap =
     Some (Fin 300, sampleHeap @ [PricingVisitorObject \<lparr>price = Fin 300\<rparr>])"
    using t [THEN conjunct2, THEN conjunct2, THEN conjunct2, THEN conjunct2, THEN conjunct2,
        THEN conjunct2, THEN conjunct1]
    by (simp add: price_variants_agree price pricingVisitor_def PricingVisitor_visitFlight_def
        new_PricingVisitor_def roundDouble_numeral)
  from h1 h2 h3 a b c show ?thesis by (intro conjI)
qed

section \<open>The total price and the order of the products\<close>

lemma dearFirst_price: "VacationPackage_calculatePrice dearFirst = Fin 10000000000000000"
  by (simp add: VacationPackage_calculatePrice_def dearFirst_def dearFlight_def cheapFlight_def
      add_def new_VacationPackage_def Let_def big0 big1)

lemma dearLast_price: "VacationPackage_calculatePrice dearLast = Fin 10000000000000002"
  by (simp add: VacationPackage_calculatePrice_def dearLast_def dearFlight_def cheapFlight_def
      add_def new_VacationPackage_def Let_def roundDouble_1 roundDouble_numeral big2)

text \<open>
  C4, as stated: the total is the same for every order of the same products. The
  two packages hold the same three flights; adding 1 twice to \<open>10\<^sup>1\<^sup>6\<close> is lost to
  rounding each time, adding \<open>10\<^sup>1\<^sup>6\<close> to 2 is exact.
\<close>

theorem sum_order_counterexample:
  "mset (products dearLast) = mset (products dearFirst) \<and>
   VacationPackage_calculatePrice dearFirst = Fin 10000000000000000 \<and>
   VacationPackage_calculatePrice dearLast = Fin 10000000000000002 \<and>
   VacationPackage_calculatePrice dearLast \<noteq> VacationPackage_calculatePrice dearFirst"
  by (simp add: dearFirst_price dearLast_price)
     (simp add: dearFirst_def dearLast_def add_def new_VacationPackage_def Let_def)

lemma foldl_whole:
  assumes "\<forall>p\<in>set ps. productPrice p = Fin (of_int (w p))"
    and "\<bar>a\<bar> + (\<Sum>p\<leftarrow>ps. \<bar>w p\<bar>) \<le> 2 ^ 53"
  shows "foldl (\<lambda>accumulator product.
            plus_number accumulator (calculatePrice (OfProduct product))) (Fin (of_int a)) ps =
         Fin (of_int (a + (\<Sum>p\<leftarrow>ps. w p)))"
  using assms
proof (induction ps arbitrary: a)
  case Nil
  show ?case by simp
next
  case (Cons p ps)
  from Cons.prems(1) have p: "productPrice p = Fin (of_int (w p))" by simp
  have "0 \<le> (\<Sum>p\<leftarrow>ps. \<bar>w p\<bar>)" by (rule sum_list_nonneg) auto
  with Cons.prems(2) have "\<bar>a + w p\<bar> \<le> 2 ^ 53" by simp
  then have "roundDouble (of_int (a + w p)) = Fin (of_int (a + w p))"
    by (rule roundDouble_of_int)
  then have step: "plus_number (Fin (of_int a)) (calculatePrice (OfProduct p)) =
      Fin (of_int (a + w p))"
    by (simp add: calculatePrice_productPrice p)
  have "\<bar>a + w p\<bar> + (\<Sum>p\<leftarrow>ps. \<bar>w p\<bar>) \<le> 2 ^ 53"
    using Cons.prems(2) by simp
  with Cons.IH [of "a + w p"] Cons.prems(1) show ?case
    by (simp add: step add.assoc)
qed

lemma whole_prices_exact:
  assumes "\<forall>p\<in>set (products this). productPrice p = Fin (of_int (w p))"
    and "(\<Sum>p\<leftarrow>products this. \<bar>w p\<bar>) \<le> 2 ^ 53"
  shows "VacationPackage_calculatePrice this = Fin (of_int (\<Sum>p\<leftarrow>products this. w p))"
  unfolding VacationPackage_calculatePrice_def
  using foldl_whole [of "products this" w 0] assms by simp

text \<open>
  C4, amended: the total is the binary64 sum of the prices of the products taken
  from the left in the order of insertion, starting from 0, in both files. When
  every price is a whole number and the magnitudes of the prices add up to no more
  than \<open>2\<^sup>5\<^sup>3\<close>, no addition rounds: the total is the arithmetic sum, and it is the
  same for every order of the same products.
\<close>

theorem calculatePrice_sums_in_order:
  "VacationPackage_calculatePrice this =
     foldl (\<lambda>accumulator product. num_add accumulator (productPrice product))
       (Fin 0) (products this) \<and>
   VacationPackage_calculatePrice_visitor this =
     foldl (\<lambda>accumulator product. num_add accumulator (productPrice product))
       (Fin 0) (products this) \<and>
   ((\<forall>p\<in>set (products this). productPrice p = Fin (of_int (w p))) \<and>
    (\<Sum>p\<leftarrow>products this. \<bar>w p\<bar>) \<le> 2 ^ 53 \<longrightarrow>
      VacationPackage_calculatePrice this = Fin (of_int (\<Sum>p\<leftarrow>products this. w p)) \<and>
      (\<forall>that. mset (products that) = mset (products this) \<longrightarrow>
         VacationPackage_calculatePrice that = VacationPackage_calculatePrice this \<and>
         VacationPackage_calculatePrice_visitor that =
           VacationPackage_calculatePrice_visitor this))"
proof -
  have 1: "VacationPackage_calculatePrice this =
     foldl (\<lambda>accumulator product. num_add accumulator (productPrice product))
       (Fin 0) (products this)"
    unfolding VacationPackage_calculatePrice_def by (rule foldl_productPrice)
  have 3: "VacationPackage_calculatePrice that = VacationPackage_calculatePrice this \<and>
         VacationPackage_calculatePrice_visitor that =
           VacationPackage_calculatePrice_visitor this"
    if h: "\<forall>p\<in>set (products this). productPrice p = Fin (of_int (w p))"
          "(\<Sum>p\<leftarrow>products this. \<bar>w p\<bar>) \<le> 2 ^ 53"
      and m: "mset (products that) = mset (products this)" for that
  proof -
    from m have "set (products that) = set (products this)" by (rule mset_eq_setD)
    with h(1) have a: "\<forall>p\<in>set (products that). productPrice p = Fin (of_int (w p))" by simp
    have perm: "sum_list (map f (products that)) = sum_list (map f (products this))"
      for f :: "Product \<Rightarrow> int"
    proof -
      have "mset (map f (products that)) = mset (map f (products this))"
        using m by simp
      then have "sum_mset (mset (map f (products that))) =
          sum_mset (mset (map f (products this)))"
        by (rule arg_cong)
      then show ?thesis by (simp only: sum_mset_sum_list)
    qed
    have abs: "(\<Sum>p\<leftarrow>products that. \<bar>w p\<bar>) = (\<Sum>p\<leftarrow>products this. \<bar>w p\<bar>)"
      by (rule perm)
    have sum: "(\<Sum>p\<leftarrow>products that. w p) = (\<Sum>p\<leftarrow>products this. w p)"
      by (rule perm)
    from abs h(2) have b: "(\<Sum>p\<leftarrow>products that. \<bar>w p\<bar>) \<le> 2 ^ 53" by simp
    show ?thesis
      unfolding price_variants_agree
      using whole_prices_exact [OF a b] whole_prices_exact [OF h] sum by simp
  qed
  have 2: "VacationPackage_calculatePrice_visitor this =
     foldl (\<lambda>accumulator product. num_add accumulator (productPrice product))
       (Fin 0) (products this)"
    unfolding price_variants_agree by (rule 1)
  have 4: "(\<forall>p\<in>set (products this). productPrice p = Fin (of_int (w p))) \<and>
    (\<Sum>p\<leftarrow>products this. \<bar>w p\<bar>) \<le> 2 ^ 53 \<longrightarrow>
      VacationPackage_calculatePrice this = Fin (of_int (\<Sum>p\<leftarrow>products this. w p)) \<and>
      (\<forall>that. mset (products that) = mset (products this) \<longrightarrow>
         VacationPackage_calculatePrice that = VacationPackage_calculatePrice this \<and>
         VacationPackage_calculatePrice_visitor that =
           VacationPackage_calculatePrice_visitor this)"
  proof (intro impI conjI allI)
    assume h: "(\<forall>p\<in>set (products this). productPrice p = Fin (of_int (w p))) \<and>
      (\<Sum>p\<leftarrow>products this. \<bar>w p\<bar>) \<le> 2 ^ 53"
    then show "VacationPackage_calculatePrice this =
        Fin (of_int (\<Sum>p\<leftarrow>products this. w p))"
      by (intro whole_prices_exact) simp_all
    fix that :: VacationPackage
    assume m: "mset (products that) = mset (products this)"
    from h have h1: "\<forall>p\<in>set (products this). productPrice p = Fin (of_int (w p))"
      and h2: "(\<Sum>p\<leftarrow>products this. \<bar>w p\<bar>) \<le> 2 ^ 53" by simp_all
    from 3 [OF h1 h2 m]
    show "VacationPackage_calculatePrice that = VacationPackage_calculatePrice this"
      and "VacationPackage_calculatePrice_visitor that =
        VacationPackage_calculatePrice_visitor this"
      by simp_all
  qed
  show ?thesis by (rule conjI [OF 1 conjI [OF 2 4]])
qed

text \<open>
  The sample package satisfies the hypotheses, each product with the whole
  number that is its price.
\<close>

theorem calculatePrice_sums_in_order_witness:
  "list_all (\<lambda>p. productPrice p = Fin (of_int (case productPrice p of Fin q \<Rightarrow> \<lfloor>q\<rfloor> | _ \<Rightarrow> 0)))
     (products pkg) \<and>
   (\<Sum>p\<leftarrow>products pkg. \<bar>case productPrice p of Fin q \<Rightarrow> \<lfloor>q\<rfloor> | _ \<Rightarrow> 0\<bar>) \<le> 2 ^ 53 \<and>
   VacationPackage_calculatePrice pkg = Fin 1900"
proof -
  define w where "w = (\<lambda>p. case productPrice p of Fin q \<Rightarrow> \<lfloor>q\<rfloor> | _ \<Rightarrow> (0::int))"
  have ps: "map productPrice (products pkg) = [Fin 300, Fin 300, Fin 800, Fin 300, Fin 200]"
    by (simp add: pkg_def add_def new_VacationPackage_def Let_def productPrice_def
        numDays_valid startDate_def endDate_def roundDouble_numeral)
  have ws: "map w (products pkg) = [300, 300, 800, 300, 200]"
    unfolding w_def using ps by (simp add: pkg_def add_def new_VacationPackage_def Let_def)
  have h1: "\<forall>p\<in>set (products pkg). productPrice p = Fin (of_int (w p))"
    unfolding w_def using ps by (simp add: pkg_def add_def new_VacationPackage_def Let_def)
  have a: "(\<Sum>p\<leftarrow>products pkg. \<bar>w p\<bar>) = 1900"
    using arg_cong [OF ws, of "\<lambda>xs. sum_list (map abs xs)"] by (simp add: comp_def)
  have s: "(\<Sum>p\<leftarrow>products pkg. w p) = 1900"
    using arg_cong [OF ws, of sum_list] by simp
  from a have h2: "(\<Sum>p\<leftarrow>products pkg. \<bar>w p\<bar>) \<le> 2 ^ 53" by simp
  from calculatePrice_sums_in_order [of pkg w, THEN conjunct2, THEN conjunct2, THEN mp,
      OF conjI [OF h1 h2], THEN conjunct1]
  have "VacationPackage_calculatePrice pkg = Fin 1900" unfolding s by simp
  with h1 h2 show ?thesis unfolding w_def by (simp add: list_all_iff)
qed

section \<open>The sample package, evaluated\<close>

lemma pkg_price: "VacationPackage_calculatePrice pkg = Fin 1900"
  by (simp add: VacationPackage_calculatePrice_def pkg_def add_def new_VacationPackage_def Let_def
      numDays_valid startDate_def endDate_def roundDouble_numeral)

lemma pkg_itinerary:
  "VacationPackage_getItinerary pf pkg =
     ''Itinerary\<newline>=========\<newline>\<newline>Flight\<newline>------\<newline>TV 312: BOS-JFK\<newline>Dep: '' @
     toLocaleDateString_enUS pf startDate @ ''\<newline>Price: $'' @ numberToString pf (Fin 300) @
     ''\<newline>\<newline>Flight\<newline>------\<newline>TV 313: JFK-BOS\<newline>Dep: '' @
     toLocaleDateString_enUS pf endDate @ ''\<newline>Price: $'' @ numberToString pf (Fin 300) @
     ''\<newline>\<newline>Hotel\<newline>-----\<newline>Hilton Times Square\<newline>Check in:  '' @
     toLocaleDateString pf startDate @ ''\<newline>Check out: '' @ toLocaleDateString pf endDate @
     ''\<newline>Room rate: $'' @ numberToString pf (Fin 400) @ ''/night'' @
     ''\<newline>\<newline>Car\<newline>---\<newline>Vehicle type:SUV\<newline>Pick up:  '' @
     toLocaleDateString pf startDate @ ''\<newline>Drop off: '' @ toLocaleDateString pf endDate @
     ''\<newline>Daily rate: $'' @ numberToString pf (Fin 150) @
     ''\<newline>\<newline>Activity\<newline>--------\<newline>Hamilton\<newline>'' @
     toLocaleDateString_enUS pf startDate @ ''\<newline>Cost: $'' @ numberToString pf (Fin 200)"
  by (simp add: VacationPackage_getItinerary_def pkg_def add_def new_VacationPackage_def Let_def
      formatDate_def formatDateTime_def)

text \<open>
  C6, as stated: the total price of the sample package is 2100, given as
  300 + 300 + 2 \<times> 400 + 2 \<times> 150 + 200. That sum is 1900, and 1900 is what the
  code returns.
\<close>

theorem sample_package_price_counterexample:
  "VacationPackage_calculatePrice pkg = Fin 1900 \<and>
   VacationPackage_calculatePrice pkg \<noteq> Fin 2100"
  by (simp add: pkg_price)

text \<open>
  C6, amended: the total price of the sample package is 1900, in both files, and
  its itinerary is the header followed by the sections of the two flights, the
  hotel, the car and the activity in that order, each laid out as its kind is.
\<close>

theorem sample_package:
  "VacationPackage_calculatePrice pkg = Fin 1900 \<and>
   VacationPackage_calculatePrice_visitor pkg = Fin 1900 \<and>
   VacationPackage_getItinerary pf pkg =
     ''Itinerary\<newline>=========\<newline>\<newline>Flight\<newline>------\<newline>TV 312: BOS-JFK\<newline>Dep: '' @
     toLocaleDateString_enUS pf startDate @ ''\<newline>Price: $'' @ numberToString pf (Fin 300) @
     ''\<newline>\<newline>Flight\<newline>------\<newline>TV 313: JFK-BOS\<newline>Dep: '' @
     toLocaleDateString_enUS pf endDate @ ''\<newline>Price: $'' @ numberToString pf (Fin 300) @
     ''\<newline>\<newline>Hotel\<newline>-----\<newline>Hilton Times Square\<newline>Check in:  '' @
     toLocaleDateString pf startDate @ ''\<newline>Check out: '' @ toLocaleDateString pf endDate @
     ''\<newline>Room rate: $'' @ numberToString pf (Fin 400) @ ''/night'' @
     ''\<newline>\<newline>Car\<newline>---\<newline>Vehicle type:SUV\<newline>Pick up:  '' @
     toLocaleDateString pf startDate @ ''\<newline>Drop off: '' @ toLocaleDateString pf endDate @
     ''\<newline>Daily rate: $'' @ numberToString pf (Fin 150) @
     ''\<newline>\<newline>Activity\<newline>--------\<newline>Hamilton\<newline>'' @
     toLocaleDateString_enUS pf startDate @ ''\<newline>Cost: $'' @ numberToString pf (Fin 200) \<and>
   VacationPackage_getItinerary_visitor pf pkg = VacationPackage_getItinerary pf pkg"
  by (simp only: price_variants_agree itinerary_variants_agree pkg_price pkg_itinerary simp_thms)

end
